theory Spec2Isabelle
  imports Complex_Main
begin

section \<open>Strided tensors\<close>

text \<open>
  A tensor is a shape, a stride per dimension and an offset into a flat backing storage,
  as in the tensor library the sources are written against: the element at a multi-index
  is read at \<open>offset + \<Sum> index\<^sub>k * stride\<^sub>k\<close>. A view shares the storage of the tensor it
  was taken from and differs only in offset, shape and strides.
\<close>

record 'a tensor =
  storage :: "'a list"
  offset :: nat
  shape :: "nat list"
  strides :: "nat list"

datatype error =
    TypeError string
  | ValueError string
  | RuntimeError string
  | IndexError string
  | ZeroDivisionError string
  | UnboundLocalError string

text \<open>A Python argument that may or may not be a tensor (\<open>torch.is_tensor\<close>).\<close>

datatype 'a pyobj = IsTensor "'a tensor" | NotTensor

text \<open>An argument that is either one number or a tuple of numbers (\<open>numbers.Number\<close>).\<close>

datatype pyarg = Num int | Tup "int list"

definition dot_index :: "nat list \<Rightarrow> nat list \<Rightarrow> nat" where
  "dot_index idx sts = sum_list (map2 (*) idx sts)"

definition elem :: "'a tensor \<Rightarrow> nat list \<Rightarrow> 'a" where
  "elem t idx = storage t ! (offset t + dot_index idx (strides t))"

definition valid_index :: "nat list \<Rightarrow> nat list \<Rightarrow> bool" where
  "valid_index shp idx \<longleftrightarrow> list_all2 (<) idx shp"

text \<open>
  The largest storage position a tensor can read, as the library computes it when it
  checks a view against its storage: no position at all when some extent is zero.
\<close>

definition max_reach :: "nat list \<Rightarrow> nat list \<Rightarrow> nat" where
  "max_reach shp sts = dot_index (map (\<lambda>d. d - 1) shp) sts"

definition in_bounds :: "nat \<Rightarrow> nat \<Rightarrow> nat list \<Rightarrow> nat list \<Rightarrow> bool" where
  "in_bounds len off shp sts \<longleftrightarrow> 0 \<in> set shp \<or> off + max_reach shp sts < len"

definition wf_tensor :: "'a tensor \<Rightarrow> bool" where
  "wf_tensor t \<longleftrightarrow>
     length (strides t) = length (shape t) \<and>
     in_bounds (length (storage t)) (offset t) (shape t) (strides t)"

text \<open>Nested-list rendering of a tensor (\<open>Tensor.tolist\<close>), for concrete examples.\<close>

datatype 'a nested = Scalar 'a | Nested "'a nested list"

fun nest :: "'a list \<Rightarrow> (nat \<times> nat) list \<Rightarrow> nat \<Rightarrow> 'a nested" where
  "nest st [] off = Scalar (st ! off)"
| "nest st ((d, s) # ds) off = Nested (map (\<lambda>i. nest st ds (off + i * s)) [0..<d])"

definition tolist :: "'a tensor \<Rightarrow> 'a nested" where
  "tolist t = nest (storage t) (zip (shape t) (strides t)) (offset t)"

section \<open>view_as_windows (hw4.py)\<close>

subsection \<open>int64 arithmetic\<close>

text \<open>
  The source turns the extents, the window extents and the steps into int64 tensors
  (\<open>torch.tensor\<close>) and computes on them; the library keeps extents and strides as int64
  values. A Python integer outside the int64 range makes \<open>torch.tensor\<close> raise, and int64
  arithmetic wraps around.
\<close>

definition int64_ok :: "int \<Rightarrow> bool" where
  "int64_ok v \<longleftrightarrow> - (2 ^ 63) \<le> v \<and> v < 2 ^ 63"

definition wrap64 :: "int \<Rightarrow> int" where
  "wrap64 v = (v + 2 ^ 63) mod 2 ^ 64 - 2 ^ 63"

text \<open>
  The extents and strides of every tensor of the library are int64 values. The tensor
  record has no such bound: a record with a larger extent or stride stands for no tensor
  of the library, and on it the model computes with exact integers.
\<close>

definition int64_tensor :: "'a tensor \<Rightarrow> bool" where
  "int64_tensor t \<longleftrightarrow>
     list_all (\<lambda>d. int64_ok (int d)) (shape t) \<and> list_all (\<lambda>s. int64_ok (int s)) (strides t)"

definition arith64 :: "'a tensor \<Rightarrow> int \<Rightarrow> int" where
  "arith64 t v = (if int64_tensor t then wrap64 v else v)"

subsection \<open>The function\<close>

text \<open>
  \<open>step = (step,) * ndim\<close> for a number, after the check \<open>step < 1\<close>; a tuple is
  taken as it is, its components unchecked.
\<close>

definition expand_step :: "nat \<Rightarrow> pyarg \<Rightarrow> error + int list" where
  "expand_step ndim step =
     (case step of
        Num s \<Rightarrow> if s < 1 then Inl (ValueError ''`step` must be >= 1'')
                 else Inr (replicate ndim s)
      | Tup ss \<Rightarrow> Inr ss)"

text \<open>
  \<open>arr_in[slices].stride()\<close> with \<open>slices = tuple(slice(None, None, st) for st in step)\<close>:
  the library's basic indexing refuses a slice step below 1 with a ValueError, and
  otherwise multiplies each stride by the step, in int64. (A step above the int64 range
  is cut down to the largest int64 value by the slice protocol; the source then fails on
  \<open>torch.tensor(step)\<close>, so the stride computed for such a step is never used.)
\<close>

definition slice_strides :: "'a tensor \<Rightarrow> int list \<Rightarrow> error + int list" where
  "slice_strides t step =
     (if list_ex (\<lambda>st. st < 1) step
      then Inl (ValueError ''step must be greater than zero'')
      else Inr (map2 (\<lambda>sd st. arith64 t (int sd * st)) (strides t) step))"

text \<open>
  \<open>torch.as_strided(arr_in, size, stride)\<close>: a view on the storage of \<open>arr_in\<close> at the
  same offset. The library refuses sizes and strides of different lengths, negative
  sizes, negative strides, and a view that would read outside the storage.
\<close>

definition as_strided :: "'a tensor \<Rightarrow> int list \<Rightarrow> int list \<Rightarrow> error + 'a tensor" where
  "as_strided t sz stride =
     (if length sz \<noteq> length stride then
        Inl (RuntimeError ''mismatch in length of strides and shape'')
      else if list_ex (\<lambda>d. d < 0) sz then
        Inl (RuntimeError ''negative size'')
      else if list_ex (\<lambda>s. s < 0) stride then
        Inl (RuntimeError ''as_strided: Negative strides are not supported at the moment'')
      else if \<not> in_bounds (length (storage t)) (offset t) (map nat sz) (map nat stride) then
        Inl (RuntimeError ''out of bounds for storage'')
      else Inr (t\<lparr>shape := map nat sz, strides := map nat stride\<rparr>))"

text \<open>
  \<open>view_as_windows\<close>, statement by statement. \<open>torch.tensor(window_shape, dtype=...)\<close> and
  \<open>torch.tensor(step)\<close> raise on a component outside the int64 range; the difference
  \<open>arr_shape - window_shape\<close> and \<open>window_shape - 1\<close> are int64 tensors.
\<close>

definition view_as_windows :: "'a pyobj \<Rightarrow> pyarg \<Rightarrow> pyarg \<Rightarrow> error + 'a tensor" where
  "view_as_windows arr_in window_shape step =
     (case arr_in of
        NotTensor \<Rightarrow> Inl (TypeError ''`arr_in` must be a pytorch tensor'')
      | IsTensor t \<Rightarrow>
          let ndim = length (shape t);
              window_shape = (case window_shape of
                                Num w \<Rightarrow> replicate ndim w
                              | Tup ws \<Rightarrow> ws)
          in
          if \<not> (length window_shape = ndim) then
            Inl (ValueError ''`window_shape` is incompatible with `arr_in.shape`'')
          else
            (case expand_step ndim step of
               Inl e \<Rightarrow> Inl e
             | Inr step \<Rightarrow>
                 if length step \<noteq> ndim then
                   Inl (ValueError ''`step` is incompatible with `arr_in.shape`'')
                 else
                   let arr_shape = map int (shape t) in
                   if int64_tensor t \<and> list_ex (\<lambda>w. \<not> int64_ok w) window_shape then
                     Inl (RuntimeError ''Overflow when unpacking long'')
                   else
                   let diff = map2 (\<lambda>d w. arith64 t (d - w)) arr_shape window_shape in
                   if list_ex (\<lambda>d. d < 0) diff then
                     Inl (ValueError ''`window_shape` is too large'')
                   else if list_ex (\<lambda>w. arith64 t (w - 1) < 0) window_shape then
                     Inl (ValueError ''`window_shape` is too small'')
                   else
                     let window_strides = strides t in
                     (case slice_strides t step of
                        Inl e \<Rightarrow> Inl e
                      | Inr indexing_strides \<Rightarrow>
                          if list_ex (\<lambda>st. \<not> int64_ok st) step then
                            Inl (RuntimeError ''Overflow when unpacking long'')
                          else
                          let win_indices_shape = map2 (\<lambda>d st. d div st + 1) diff step;
                              new_shape = win_indices_shape @ window_shape;
                              strides' = indexing_strides @ map int window_strides
                          in as_strided t new_shape strides')))"

subsection \<open>Vocabulary for the claims about view_as_windows\<close>

text \<open>A number stands for the tuple that repeats it once per dimension.\<close>

definition expand_arg :: "nat \<Rightarrow> pyarg \<Rightarrow> int list" where
  "expand_arg ndim a = (case a of Num w \<Rightarrow> replicate ndim w | Tup ws \<Rightarrow> ws)"

text \<open>A step below 1, given as a number or as a component of a tuple.\<close>

definition bad_step :: "pyarg \<Rightarrow> bool" where
  "bad_step st = (case st of Num s \<Rightarrow> s < 1 | Tup ss \<Rightarrow> list_ex (\<lambda>s. s < 1) ss)"

text \<open>Every window extent is at least 1 and at most the input extent.\<close>

definition window_fits :: "nat list \<Rightarrow> int list \<Rightarrow> bool" where
  "window_fits shp W \<longleftrightarrow> list_all2 (\<lambda>w d. 1 \<le> w \<and> w \<le> int d) W shp"

text \<open>Window positions per dimension: \<open>floor((extent - window) / step) + 1\<close>.\<close>

definition positions :: "nat list \<Rightarrow> int list \<Rightarrow> int list \<Rightarrow> nat list" where
  "positions shp W S = map2 (\<lambda>d (w, s). nat ((int d - w) div s + 1)) shp (zip W S)"

text \<open>The input index under window position \<open>i\<close> and in-window index \<open>j\<close>: \<open>i * step + j\<close>.\<close>

definition src_index :: "int list \<Rightarrow> nat list \<Rightarrow> nat list \<Rightarrow> nat list" where
  "src_index S i j = map2 (\<lambda>(i, s) j. i * nat s + j) (zip i S) j"


text \<open>A step given as one number below 1: the step the source checks itself.\<close>

definition bad_scalar_step :: "pyarg \<Rightarrow> bool" where
  "bad_scalar_step st = (case st of Num s \<Rightarrow> s < 1 | Tup ss \<Rightarrow> False)"



text \<open>
  Slicing with the step stays within int64: in every dimension the extent plus the step
  and the stride times the step are below \<open>2\<^sup>6\<^sup>3\<close>.
\<close>

definition int64_safe :: "'a tensor \<Rightarrow> int list \<Rightarrow> bool" where
  "int64_safe t S \<longleftrightarrow>
     list_all2 (\<lambda>(d, sd) st. int d + st < 2 ^ 63 \<and> int sd * st < 2 ^ 63)
       (zip (shape t) (strides t)) S"




section \<open>Tensor operations of the library used by the layers\<close>

text \<open>Sequencing of fallible steps: the first error is the result.\<close>

definition then_do :: "error + 'a \<Rightarrow> ('a \<Rightarrow> error + 'b) \<Rightarrow> error + 'b" where
  "then_do m f = (case m of Inl e \<Rightarrow> Inl e | Inr x \<Rightarrow> f x)"

text \<open>Row-major strides and row-major enumeration of the indices of a shape.\<close>

fun contiguous_strides :: "nat list \<Rightarrow> nat list" where
  "contiguous_strides [] = []"
| "contiguous_strides (d # ds) = prod_list ds # contiguous_strides ds"

fun all_indices :: "nat list \<Rightarrow> nat list list" where
  "all_indices [] = [[]]"
| "all_indices (d # ds) = concat (map (\<lambda>i. map ((#) i) (all_indices ds)) [0..<d])"

definition numel :: "'a tensor \<Rightarrow> nat" where
  "numel t = prod_list (shape t)"

text \<open>The elements of a tensor in row-major order of its indices.\<close>

definition flat :: "'a tensor \<Rightarrow> 'a list" where
  "flat t = map (elem t) (all_indices (shape t))"

text \<open>A freshly allocated, contiguous tensor holding the given elements.\<close>

definition contiguous_of :: "nat list \<Rightarrow> 'a list \<Rightarrow> 'a tensor" where
  "contiguous_of shp xs =
     \<lparr>storage = xs, offset = 0, shape = shp, strides = contiguous_strides shp\<rparr>"

definition tabulate :: "nat list \<Rightarrow> (nat list \<Rightarrow> 'a) \<Rightarrow> 'a tensor" where
  "tabulate shp f = contiguous_of shp (map f (all_indices shp))"

text \<open>
  The shape a \<open>reshape\<close> or \<open>view\<close> asks for, with at most one dimension given as \<open>-1\<close>
  and inferred from the number of elements.
\<close>

definition infer_shape :: "nat \<Rightarrow> int list \<Rightarrow> error + nat list" where
  "infer_shape n shp =
     (if list_ex (\<lambda>d. d < - 1) shp then
        Inl (RuntimeError ''invalid shape dimension'')
      else if 1 < length (filter (\<lambda>d. d = - 1) shp) then
        Inl (RuntimeError ''only one dimension can be inferred'')
      else if list_ex (\<lambda>d. d = - 1) shp then
        (let p = prod_list (map nat (filter (\<lambda>d. d \<noteq> - 1) shp)) in
         if p = 0 \<or> n mod p \<noteq> 0 then
           Inl (RuntimeError ''shape is invalid for input size'')
         else Inr (map (\<lambda>d. if d = - 1 then n div p else nat d) shp))
      else if prod_list (map nat shp) \<noteq> n then
        Inl (RuntimeError ''shape is invalid for input size'')
      else Inr (map nat shp))"

text \<open>
  \<open>Tensor.reshape\<close>: the same elements in row-major order under a new shape. The library
  returns a view where the strides allow it and a copy otherwise; the elements read are
  the same.
\<close>

definition reshape :: "'a tensor \<Rightarrow> int list \<Rightarrow> error + 'a tensor" where
  "reshape t shp =
     then_do (infer_shape (numel t) shp) (\<lambda>s. Inr (contiguous_of s (flat t)))"

text \<open>\<open>Tensor.squeeze(dim)\<close>: drops dimension \<open>dim\<close> when its extent is 1.\<close>

definition squeeze :: "'a tensor \<Rightarrow> nat \<Rightarrow> error + 'a tensor" where
  "squeeze t d =
     (if length (shape t) \<le> d then Inl (IndexError ''Dimension out of range'')
      else if shape t ! d = 1 then
        Inr (t\<lparr>shape := take d (shape t) @ drop (Suc d) (shape t),
               strides := take d (strides t) @ drop (Suc d) (strides t)\<rparr>)
      else Inr t)"

text \<open>\<open>Tensor.permute(dims)\<close>: a view with the dimensions reordered.\<close>

definition permute :: "'a tensor \<Rightarrow> nat list \<Rightarrow> error + 'a tensor" where
  "permute t dims =
     (if length dims \<noteq> length (shape t) \<or> \<not> distinct dims \<or>
         list_ex (\<lambda>d. length (shape t) \<le> d) dims
      then Inl (RuntimeError ''permute: invalid dims'')
      else Inr (t\<lparr>shape := map (\<lambda>d. shape t ! d) dims,
                  strides := map (\<lambda>d. strides t ! d) dims\<rparr>))"

text \<open>\<open>Tensor.t()\<close>: transposes a matrix.\<close>

definition transpose_t :: "'a tensor \<Rightarrow> error + 'a tensor" where
  "transpose_t t =
     (if length (shape t) = 2 then permute t [1, 0]
      else Inl (RuntimeError ''t() expects a tensor with <= 2 dimensions''))"

text \<open>\<open>torch.mm\<close>: the product of two matrices.\<close>

definition mm :: "'a::semiring_0 tensor \<Rightarrow> 'a tensor \<Rightarrow> error + 'a tensor" where
  "mm a b =
     (if length (shape a) \<noteq> 2 \<or> length (shape b) \<noteq> 2 then
        Inl (RuntimeError ''mm: expected 2D tensors'')
      else if shape a ! 1 \<noteq> shape b ! 0 then
        Inl (RuntimeError ''mat1 and mat2 shapes cannot be multiplied'')
      else Inr (tabulate [shape a ! 0, shape b ! 1]
                  (\<lambda>idx. \<Sum>k\<leftarrow>[0..<shape a ! 1]. elem a [idx ! 0, k] * elem b [k, idx ! 1])))"

text \<open>
  Broadcasting of two shapes, aligned at the last dimension: extents must agree or one
  of them be 1; a missing leading dimension counts as 1.
\<close>

fun broadcast_rev :: "nat list \<Rightarrow> nat list \<Rightarrow> error + nat list" where
  "broadcast_rev [] ys = Inr ys"
| "broadcast_rev xs [] = Inr xs"
| "broadcast_rev (x # xs) (y # ys) =
     (if x = y \<or> y = 1 then then_do (broadcast_rev xs ys) (\<lambda>r. Inr (x # r))
      else if x = 1 then then_do (broadcast_rev xs ys) (\<lambda>r. Inr (y # r))
      else Inl (RuntimeError ''size of tensors must match''))"

definition broadcast_shapes :: "nat list \<Rightarrow> nat list \<Rightarrow> error + nat list" where
  "broadcast_shapes xs ys = then_do (broadcast_rev (rev xs) (rev ys)) (\<lambda>r. Inr (rev r))"

text \<open>The index an operand of shape \<open>shp\<close> is read at for the broadcast index \<open>idx\<close>.\<close>

definition bidx :: "nat list \<Rightarrow> nat list \<Rightarrow> nat list" where
  "bidx shp idx = map2 (\<lambda>d i. if d = 1 then 0 else i) shp (drop (length idx - length shp) idx)"

definition tensor_add :: "'a::semiring_0 tensor \<Rightarrow> 'a tensor \<Rightarrow> error + 'a tensor" where
  "tensor_add a b =
     then_do (broadcast_shapes (shape a) (shape b))
       (\<lambda>shp. Inr (tabulate shp (\<lambda>idx. elem a (bidx (shape a) idx) + elem b (bidx (shape b) idx))))"

text \<open>\<open>torch.max(t, dim=-1)[0]\<close>: the maximum over the last dimension.\<close>

definition max_last :: "'a::linorder tensor \<Rightarrow> error + 'a tensor" where
  "max_last t =
     (if shape t = [] then Inr t
      else if last (shape t) = 0 then
        Inl (IndexError ''max(): Expected reduction dim to have non-zero size'')
      else Inr (tabulate (butlast (shape t))
                  (\<lambda>idx. fold max (map (\<lambda>k. elem t (idx @ [k])) [1..<last (shape t)])
                           (elem t (idx @ [0])))))"

section \<open>Convolution and max pooling (hw4.py)\<close>

record 'a nn_convolutional_layer =
  weight_W :: "'a tensor"
  bias_b :: "'a tensor"
  input_size :: int

text \<open>\<open>nn_convolutional_layer.forward\<close>.\<close>

definition conv_forward :: "'a::semiring_0 nn_convolutional_layer \<Rightarrow> 'a tensor \<Rightarrow> error + 'a tensor" where
  "conv_forward self x =
     (case shape x of
        [batch_size, in_ch_size, height, width] \<Rightarrow>
          (case shape (weight_W self) of
             [out_ch_size, uu, f_height, f_width] \<Rightarrow>
               (let out_height = int height - int f_height + 1;
                    out_width = int width - int f_width + 1
                in
                then_do (view_as_windows (IsTensor x) (Tup [1, 1, int f_height, int f_width]) (Num 1))
                (\<lambda>x_windows. then_do (squeeze x_windows 2)
                (\<lambda>x_windows. then_do (squeeze x_windows 2)
                (\<lambda>x_windows. then_do (reshape x_windows
                     [int batch_size, int in_ch_size, out_height * out_width,
                      int f_height * int f_width])
                (\<lambda>x_col. then_do (permute x_col [0, 2, 1, 3])
                (\<lambda>x_col. then_do (reshape x_col
                     [int batch_size * out_height * out_width,
                      int in_ch_size * int f_height * int f_width])
                (\<lambda>x_col. then_do (reshape (weight_W self) [int out_ch_size, - 1])
                (\<lambda>W_col. then_do (transpose_t W_col)
                (\<lambda>W_col_t. then_do (mm x_col W_col_t)
                (\<lambda>out. then_do (reshape out
                     [int batch_size, out_height, out_width, int out_ch_size])
                (\<lambda>out. then_do (permute out [0, 3, 1, 2])
                (\<lambda>out. tensor_add out (bias_b self)))))))))))))
           | _ \<Rightarrow> Inl (ValueError ''not enough values to unpack''))
      | _ \<Rightarrow> Inl (ValueError ''not enough values to unpack''))"

record nn_max_pooling_layer =
  stride :: int
  pool_size :: int

text \<open>\<open>nn_max_pooling_layer.forward\<close>; \<open>//\<close> raises on a zero stride.\<close>

definition pool_forward :: "nn_max_pooling_layer \<Rightarrow> 'a::linorder tensor \<Rightarrow> error + 'a tensor" where
  "pool_forward self x =
     (case shape x of
        [batch_size, channels, height, width] \<Rightarrow>
          if stride self = 0 then Inl (ZeroDivisionError ''integer division or modulo by zero'')
          else
            (let out_height = (int height - pool_size self) div stride self + 1;
                 out_width = (int width - pool_size self) div stride self + 1
             in
             then_do (view_as_windows (IsTensor x)
                        (Tup [1, 1, pool_size self, pool_size self])
                        (Tup [1, 1, stride self, stride self]))
             (\<lambda>windows. then_do (squeeze windows 2)
             (\<lambda>windows. then_do (squeeze windows 2)
             (\<lambda>windows. then_do (reshape windows
                  [int batch_size, int channels, out_height, out_width,
                   pool_size self * pool_size self])
             (\<lambda>windows. max_last windows)))))
      | _ \<Rightarrow> Inl (ValueError ''not enough values to unpack''))"

subsection \<open>Reference layers, as the specification words them\<close>

text \<open>
  Valid, unpadded, stride-1 cross-correlation (no kernel flip) plus the bias of the
  output channel, at output index \<open>(n, o, i, j)\<close>.
\<close>

definition conv_ref :: "'a::semiring_0 tensor \<Rightarrow> 'a tensor \<Rightarrow> 'a tensor \<Rightarrow> nat \<Rightarrow> nat \<Rightarrow> nat \<Rightarrow> nat \<Rightarrow> 'a" where
  "conv_ref x Wt bt n o' i j =
     (\<Sum>c<shape x ! 1. \<Sum>p<shape Wt ! 2. \<Sum>q<shape Wt ! 3.
        elem x [n, c, i + p, j + q] * elem Wt [o', c, p, q]) + elem bt [0, o', 0, 0]"

text \<open>
  Max pooling: the maximum of the \<open>pool_size\<close> by \<open>pool_size\<close> window of the input that
  starts at \<open>(i * stride, j * stride)\<close>.
\<close>

definition pool_ref :: "nat \<Rightarrow> nat \<Rightarrow> 'a::linorder tensor \<Rightarrow> nat \<Rightarrow> nat \<Rightarrow> nat \<Rightarrow> nat \<Rightarrow> 'a" where
  "pool_ref ps sd x n c i j =
     Max ((\<lambda>(a, b). elem x [n, c, i * sd + a, j * sd + b]) ` ({..<ps} \<times> {..<ps}))"

text \<open>The \<open>2x2\<close> input \<open>[[1,2],[3,4]]\<close> as one batch element with one channel.\<close>

definition ex22 :: "int tensor" where
  "ex22 = \<lparr>storage = [1, 2, 3, 4], offset = 0, shape = [1, 1, 2, 2], strides = [4, 4, 2, 1]\<rparr>"

text \<open>A \<open>2x2\<close> filter for one input and one output channel, and its bias.\<close>

definition exW :: "int tensor" where
  "exW = \<lparr>storage = [1, 0, 0, 1], offset = 0, shape = [1, 1, 2, 2], strides = [4, 4, 2, 1]\<rparr>"

definition exb :: "int tensor" where
  "exb = \<lparr>storage = [10], offset = 0, shape = [1, 1, 1, 1], strides = [1, 1, 1, 1]\<rparr>"

section \<open>Layer parameters as shared mutable tensors (hw4.py)\<close>

text \<open>
  Python variables hold references: two tensors alias each other when they read the same
  storage. The heap is the list of storages, an address is a position in it, and a tensor
  reference names a storage together with its view on it. Allocation appends a storage.
  Gradient bookkeeping (\<open>requires_grad\<close>) is not part of this model; \<open>detach\<close> is the
  reference itself, on the same storage.
\<close>

type_synonym 'a heap = "'a list list"

record tref =
  addr :: nat
  roffset :: nat
  rshape :: "nat list"
  rstrides :: "nat list"

text \<open>The tensor a reference denotes in a heap.\<close>

definition deref :: "'a heap \<Rightarrow> tref \<Rightarrow> 'a tensor" where
  "deref h r = \<lparr>storage = h ! addr r, offset = roffset r, shape = rshape r, strides = rstrides r\<rparr>"

text \<open>\<open>Tensor.clone()\<close>: a new storage holding the elements in row-major order.\<close>

definition clone :: "'a heap \<Rightarrow> tref \<Rightarrow> 'a heap \<times> tref" where
  "clone h r =
     (h @ [flat (deref h r)],
      \<lparr>addr = length h, roffset = 0, rshape = rshape r, rstrides = contiguous_strides (rshape r)\<rparr>)"

definition detach :: "tref \<Rightarrow> tref" where
  "detach r = r"

text \<open>
  \<open>a += d\<close> on tensors: every element of \<open>a\<close> is overwritten in its own storage with its
  sum with the broadcast element of \<open>d\<close>, both read before the update. An operand that
  does not broadcast to the shape of \<open>a\<close> raises, and nothing is written.
\<close>

definition inplace_add :: "'a::plus heap \<Rightarrow> tref \<Rightarrow> tref \<Rightarrow> 'a heap \<times> error option" where
  "inplace_add h a d =
     (if broadcast_shapes (rshape a) (rshape d) \<noteq> Inr (rshape a) then
        (h, Some (RuntimeError ''output with shape doesn't match the broadcast shape''))
      else
        (h[addr a :=
             fold (\<lambda>idx st. st[roffset a + dot_index idx (rstrides a) :=
                                 elem (deref h a) idx + elem (deref h d) (bidx (rshape d) idx)])
               (all_indices (rshape a)) (h ! addr a)],
         None))"

record conv_params =
  W_param :: tref
  b_param :: tref

text \<open>\<open>update_weights\<close>: \<open>self.W += dW; self.b += db\<close>.\<close>

definition update_weights :: "'a::plus heap \<Rightarrow> conv_params \<Rightarrow> tref \<Rightarrow> tref \<Rightarrow> 'a heap \<times> error option" where
  "update_weights h self dW db =
     (case inplace_add h (W_param self) dW of
        (h1, Some e) \<Rightarrow> (h1, Some e)
      | (h1, None) \<Rightarrow> inplace_add h1 (b_param self) db)"

text \<open>\<open>get_weights\<close>: \<open>return self.W.clone().detach(), self.b.clone().detach()\<close>.\<close>

definition get_weights :: "'a heap \<Rightarrow> conv_params \<Rightarrow> 'a heap \<times> tref \<times> tref" where
  "get_weights h self =
     (let (h1, w) = clone h (W_param self);
          (h2, b) = clone h1 (b_param self)
      in (h2, detach w, detach b))"

text \<open>\<open>set_weights\<close>: \<open>self.W = W.clone().detach(); self.b = b.clone().detach()\<close>.\<close>

definition set_weights :: "'a heap \<Rightarrow> conv_params \<Rightarrow> tref \<Rightarrow> tref \<Rightarrow> 'a heap \<times> conv_params" where
  "set_weights h self Wn bn =
     (let (h1, w) = clone h Wn;
          (h2, b) = clone h1 bn
      in (h2, self\<lparr>W_param := detach w, b_param := detach b\<rparr>))"

text \<open>A reference is allocated in a heap when its storage exists there.\<close>

definition allocated :: "'a heap \<Rightarrow> tref \<Rightarrow> bool" where
  "allocated h r \<longleftrightarrow> addr r < length h"

text \<open>
  A heap with a weight and a bias of a layer, and a weight and a bias held by a caller.
\<close>

definition ex_heap :: "int heap" where
  "ex_heap = [[1, 2], [10], [5, 6], [7]]"

definition ex_Wn :: tref where
  "ex_Wn = \<lparr>addr = 2, roffset = 0, rshape = [2], rstrides = [1]\<rparr>"

definition ex_bn :: tref where
  "ex_bn = \<lparr>addr = 3, roffset = 0, rshape = [1], rstrides = [1]\<rparr>"

definition ex_layer :: conv_params where
  "ex_layer = \<lparr>W_param = \<lparr>addr = 0, roffset = 0, rshape = [2], rstrides = [1]\<rparr>,
               b_param = \<lparr>addr = 1, roffset = 0, rshape = [1], rstrides = [1]\<rparr>\<rparr>"

section \<open>Floating-point values with infinities and NaN (hw7.py)\<close>

text \<open>
  The attention code fills scores with \<open>float('-inf')\<close> and relies on what the arithmetic
  does with it, so the element type of the encoder's tensors has the two infinities and
  NaN beside the finite values. Finite arithmetic is exact (no rounding, no overflow);
  the special values follow IEEE 754: NaN is absorbing, \<open>inf - inf\<close>, \<open>0 * inf\<close>, \<open>0 / 0\<close> and
  \<open>inf / inf\<close> are NaN, \<open>exp(-inf) = 0\<close>. The sign of zero is not modelled.
\<close>

datatype fval = Fin real | PInf | NInf | NaN

fun fneg :: "fval \<Rightarrow> fval" where
  "fneg (Fin a) = Fin (- a)"
| "fneg PInf = NInf"
| "fneg NInf = PInf"
| "fneg NaN = NaN"

fun fadd :: "fval \<Rightarrow> fval \<Rightarrow> fval" where
  "fadd NaN y = NaN"
| "fadd x NaN = NaN"
| "fadd (Fin a) (Fin b) = Fin (a + b)"
| "fadd (Fin a) y = y"
| "fadd x (Fin b) = x"
| "fadd PInf PInf = PInf"
| "fadd NInf NInf = NInf"
| "fadd PInf NInf = NaN"
| "fadd NInf PInf = NaN"

definition fsub :: "fval \<Rightarrow> fval \<Rightarrow> fval" where
  "fsub x y = fadd x (fneg y)"

text \<open>The sign of a value that is not NaN: \<open>-1\<close>, \<open>0\<close> or \<open>1\<close>.\<close>

fun fsign :: "fval \<Rightarrow> int" where
  "fsign (Fin a) = (if a < 0 then - 1 else if a = 0 then 0 else 1)"
| "fsign PInf = 1"
| "fsign NInf = - 1"
| "fsign NaN = 0"

definition inf_of_sign :: "int \<Rightarrow> fval" where
  "inf_of_sign s = (if s = 0 then NaN else if s < 0 then NInf else PInf)"

fun fmul :: "fval \<Rightarrow> fval \<Rightarrow> fval" where
  "fmul NaN y = NaN"
| "fmul x NaN = NaN"
| "fmul (Fin a) (Fin b) = Fin (a * b)"
| "fmul x y = inf_of_sign (fsign x * fsign y)"

fun fdiv :: "fval \<Rightarrow> fval \<Rightarrow> fval" where
  "fdiv NaN y = NaN"
| "fdiv x NaN = NaN"
| "fdiv (Fin a) (Fin b) = (if b = 0 then inf_of_sign (fsign (Fin a)) else Fin (a / b))"
| "fdiv (Fin a) y = Fin 0"
| "fdiv x (Fin b) = inf_of_sign (fsign x * (if b < 0 then - 1 else 1))"
| "fdiv x y = NaN"

fun fexp :: "fval \<Rightarrow> fval" where
  "fexp (Fin a) = Fin (exp a)"
| "fexp PInf = PInf"
| "fexp NInf = Fin 0"
| "fexp NaN = NaN"

fun fsqrt :: "fval \<Rightarrow> fval" where
  "fsqrt (Fin a) = (if a < 0 then NaN else Fin (sqrt a))"
| "fsqrt PInf = PInf"
| "fsqrt NInf = NaN"
| "fsqrt NaN = NaN"

fun fmax :: "fval \<Rightarrow> fval \<Rightarrow> fval" where
  "fmax NaN y = NaN"
| "fmax x NaN = NaN"
| "fmax (Fin a) (Fin b) = Fin (max a b)"
| "fmax PInf y = PInf"
| "fmax x PInf = PInf"
| "fmax NInf y = y"
| "fmax x NInf = x"

definition fsum :: "fval list \<Rightarrow> fval" where
  "fsum xs = fold (\<lambda>x acc. fadd acc x) xs (Fin 0)"

fun is_Fin :: "fval \<Rightarrow> bool" where
  "is_Fin (Fin a) = True"
| "is_Fin x = False"

text \<open>A tensor all of whose stored elements are finite.\<close>

definition all_finite :: "fval tensor \<Rightarrow> bool" where
  "all_finite t \<longleftrightarrow> list_all is_Fin (storage t)"

section \<open>Positional encoding (hw7.py)\<close>

text \<open>
  \<open>PosEncoding\<close>: \<open>POS\<close> and \<open>I\<close> are the two index grids of \<open>torch.meshgrid(pos, i)\<close>, so
  the entry at \<open>(pos, i)\<close> is computed from \<open>POS = pos\<close> and \<open>I = i\<close>. \<open>%\<close>, \<open>1 - I % 2\<close> and
  \<open>I - 1\<close> are integer operations; \<open>/\<close> and \<open>**\<close> are real ones.
\<close>

definition PosEncoding :: "nat \<Rightarrow> nat \<Rightarrow> real tensor" where
  "PosEncoding t_len d_model =
     tabulate [t_len, d_model]
       (\<lambda>idx. let POS = idx ! 0; I = idx ! 1 in
          real_of_int (1 - int I mod 2) * sin (real POS / 10 powr (4 * real I / real d_model)) +
          real_of_int (int I mod 2) *
            cos (real POS / 10 powr (4 * real_of_int (int I - 1) / real d_model)))"

section \<open>Library operations used by the encoder (hw7.py)\<close>

definition map_tensor :: "('a \<Rightarrow> 'b) \<Rightarrow> 'a tensor \<Rightarrow> 'b tensor" where
  "map_tensor f t = tabulate (shape t) (\<lambda>idx. f (elem t idx))"

text \<open>Elementwise sum of two tensors with broadcasting.\<close>

definition tensor_fadd :: "fval tensor \<Rightarrow> fval tensor \<Rightarrow> error + fval tensor" where
  "tensor_fadd a b =
     then_do (broadcast_shapes (shape a) (shape b))
       (\<lambda>shp. Inr (tabulate shp
          (\<lambda>idx. fadd (elem a (bidx (shape a) idx)) (elem b (bidx (shape b) idx)))))"

text \<open>
  \<open>Tensor.view\<close>: a reshape that never copies. The model accepts contiguous tensors, which
  is what the encoder passes (outputs of linear layers and of \<open>contiguous()\<close>); the library
  also accepts some other layouts.
\<close>

definition is_contiguous :: "'a tensor \<Rightarrow> bool" where
  "is_contiguous t \<longleftrightarrow> strides t = contiguous_strides (shape t)"

definition view :: "'a tensor \<Rightarrow> int list \<Rightarrow> error + 'a tensor" where
  "view t shp =
     (if \<not> is_contiguous t then
        Inl (RuntimeError ''view size is not compatible with input tensor's size and stride'')
      else reshape t shp)"

definition contiguous :: "'a tensor \<Rightarrow> 'a tensor" where
  "contiguous t = contiguous_of (shape t) (flat t)"

text \<open>\<open>Tensor.transpose(dim0, dim1)\<close>; a negative dimension counts from the end.\<close>

definition norm_dim :: "nat \<Rightarrow> int \<Rightarrow> error + nat" where
  "norm_dim ndim d =
     (if d < - int ndim \<or> int ndim \<le> d then Inl (IndexError ''Dimension out of range'')
      else Inr (nat (if d < 0 then d + int ndim else d)))"

definition transpose_dims :: "'a tensor \<Rightarrow> int \<Rightarrow> int \<Rightarrow> error + 'a tensor" where
  "transpose_dims t dim0 dim1 =
     then_do (norm_dim (length (shape t)) dim0) (\<lambda>d0.
     then_do (norm_dim (length (shape t)) dim1) (\<lambda>d1.
       Inr (t\<lparr>shape := (shape t)[d0 := shape t ! d1, d1 := shape t ! d0],
              strides := (strides t)[d0 := strides t ! d1, d1 := strides t ! d0]\<rparr>)))"

text \<open>
  \<open>torch.matmul\<close> on operands of at least two dimensions (the encoder multiplies 4-D
  tensors): matrix product over the last two dimensions, the leading ones broadcast.
\<close>

definition matmul :: "fval tensor \<Rightarrow> fval tensor \<Rightarrow> error + fval tensor" where
  "matmul a b =
     (let na = length (shape a); nb = length (shape b) in
      if na < 2 \<or> nb < 2 then Inl (RuntimeError ''matmul: operand with fewer than 2 dimensions'')
      else if shape a ! (na - 1) \<noteq> shape b ! (nb - 2) then
        Inl (RuntimeError ''mat1 and mat2 shapes cannot be multiplied'')
      else
        then_do (broadcast_shapes (take (na - 2) (shape a)) (take (nb - 2) (shape b)))
          (\<lambda>bs. Inr (tabulate (bs @ [shape a ! (na - 2), shape b ! (nb - 1)])
             (\<lambda>idx. fsum (map (\<lambda>k.
                   fmul (elem a (bidx (take (na - 2) (shape a)) (take (length bs) idx)
                                   @ [idx ! length bs, k]))
                        (elem b (bidx (take (nb - 2) (shape b)) (take (length bs) idx)
                                   @ [k, idx ! Suc (length bs)])))
                 [0..<shape a ! (na - 1)])))))"

text \<open>\<open>nn.Linear\<close>: \<open>y = x W\<^sup>T + b\<close> on the last dimension.\<close>

record nn_Linear =
  lin_weight :: "fval tensor"
  lin_bias :: "fval tensor"

definition Linear_forward :: "nn_Linear \<Rightarrow> fval tensor \<Rightarrow> error + fval tensor" where
  "Linear_forward l x =
     (if shape x = [] \<or> length (shape (lin_weight l)) \<noteq> 2 \<or>
         last (shape x) \<noteq> shape (lin_weight l) ! 1 \<or>
         shape (lin_bias l) \<noteq> [shape (lin_weight l) ! 0]
      then Inl (RuntimeError ''mat1 and mat2 shapes cannot be multiplied'')
      else Inr (tabulate (butlast (shape x) @ [shape (lin_weight l) ! 0])
             (\<lambda>idx. fadd (fsum (map (\<lambda>k. fmul (elem x (butlast idx @ [k]))
                                              (elem (lin_weight l) [last idx, k]))
                                 [0..<last (shape x)]))
                          (elem (lin_bias l) [last idx]))))"

text \<open>\<open>F.softmax(scores, dim=-1)\<close>, computed as the library does: shifted by the row maximum.\<close>

definition row_of :: "'a tensor \<Rightarrow> nat list \<Rightarrow> 'a list" where
  "row_of t idx = map (\<lambda>k. elem t (butlast idx @ [k])) [0..<last (shape t)]"

definition row_max :: "fval list \<Rightarrow> fval" where
  "row_max row = (case row of [] \<Rightarrow> NInf | x # xs \<Rightarrow> fold fmax xs x)"

definition softmax_last :: "fval tensor \<Rightarrow> fval tensor" where
  "softmax_last t =
     tabulate (shape t)
       (\<lambda>idx. let row = row_of t idx; m = row_max row
              in fdiv (fexp (fsub (elem t idx) m)) (fsum (map (\<lambda>x. fexp (fsub x m)) row)))"

text \<open>
  \<open>nn.Dropout\<close>: in training mode an element is kept and scaled by \<open>1 / (1 - p)\<close> or
  multiplied by zero. The random choice made at the \<open>n\<close>-th call of the module during a
  forward pass, for the element at \<open>idx\<close>, is the field \<open>keep n idx\<close>.
\<close>

record nn_Dropout =
  drop_p :: real
  training :: bool
  keep :: "nat \<Rightarrow> nat list \<Rightarrow> bool"

definition Dropout_forward :: "nn_Dropout \<Rightarrow> nat \<Rightarrow> fval tensor \<Rightarrow> fval tensor" where
  "Dropout_forward dr n x =
     (if training dr \<and> 0 < drop_p dr then
        tabulate (shape x)
          (\<lambda>idx. fmul (elem x idx)
                   (Fin (if keep dr n idx \<and> drop_p dr < 1 then 1 / (1 - drop_p dr) else 0)))
      else x)"

text \<open>\<open>nn.LayerNorm(d_model)\<close>: normalisation over the last dimension, biased variance.\<close>

record nn_LayerNorm =
  ln_weight :: "fval tensor"
  ln_bias :: "fval tensor"
  ln_eps :: real

definition LayerNorm_forward :: "nn_LayerNorm \<Rightarrow> fval tensor \<Rightarrow> error + fval tensor" where
  "LayerNorm_forward lnm x =
     (if shape x = [] \<or> shape (ln_weight lnm) \<noteq> [last (shape x)] \<or>
         shape (ln_bias lnm) \<noteq> [last (shape x)]
      then Inl (RuntimeError ''Given normalized_shape, expected input with matching shape'')
      else Inr (tabulate (shape x)
             (\<lambda>idx. let row = row_of x idx;
                        cnt = Fin (real (last (shape x)));
                        mean = fdiv (fsum row) cnt;
                        var = fdiv (fsum (map (\<lambda>v. fmul (fsub v mean) (fsub v mean)) row)) cnt
                    in fadd (fmul (fdiv (fsub (elem x idx) mean)
                                        (fsqrt (fadd var (Fin (ln_eps lnm)))))
                                  (elem (ln_weight lnm) [last idx]))
                            (elem (ln_bias lnm) [last idx]))))"

text \<open>\<open>nn.ReLU\<close>.\<close>

definition relu :: "fval tensor \<Rightarrow> fval tensor" where
  "relu x = map_tensor (fmax (Fin 0)) x"

text \<open>\<open>nn.Embedding\<close>: row lookup; a token outside the vocabulary raises.\<close>

record nn_Embedding =
  emb_weight :: "fval tensor"

definition Embedding_forward :: "nn_Embedding \<Rightarrow> int tensor \<Rightarrow> error + fval tensor" where
  "Embedding_forward e x =
     (if length (shape (emb_weight e)) \<noteq> 2 then Inl (RuntimeError ''weight must be 2-D'')
      else if list_ex (\<lambda>tok. tok < 0 \<or> int (shape (emb_weight e) ! 0) \<le> tok) (flat x) then
        Inl (IndexError ''index out of range in self'')
      else Inr (tabulate (shape x @ [shape (emb_weight e) ! 1])
             (\<lambda>idx. elem (emb_weight e) [nat (elem x (butlast idx)), last idx])))"

section \<open>The encoder modules (hw7.py)\<close>

subsection \<open>MultiHeadAttention\<close>

record MultiHeadAttention =
  mha_d_model :: nat
  mha_numhead :: nat
  mha_d_Q :: nat
  mha_d_K :: nat
  mha_d_V :: nat
  mha_W_Q :: nn_Linear
  mha_W_K :: nn_Linear
  mha_W_V :: nn_Linear
  mha_W_O :: nn_Linear
  mha_dropout :: nn_Dropout
  mha_scale :: real

text \<open>A linear layer as \<open>nn.Linear(fan_in, fan_out)\<close> creates it.\<close>

definition is_Linear :: "nn_Linear \<Rightarrow> nat \<Rightarrow> nat \<Rightarrow> bool" where
  "is_Linear l fan_in fan_out \<longleftrightarrow>
     shape (lin_weight l) = [fan_out, fan_in] \<and> shape (lin_bias l) = [fan_out]"

text \<open>What \<open>MultiHeadAttention.__init__\<close> establishes.\<close>

definition MultiHeadAttention_init ::
  "nat \<Rightarrow> nat \<Rightarrow> nat \<Rightarrow> nat \<Rightarrow> nat \<Rightarrow> real \<Rightarrow> MultiHeadAttention \<Rightarrow> bool" where
  "MultiHeadAttention_init dm dq dk dv nh p m \<longleftrightarrow>
     mha_d_model m = dm \<and> mha_numhead m = nh \<and>
     mha_d_Q m = dq \<and> mha_d_K m = dk \<and> mha_d_V m = dv \<and>
     is_Linear (mha_W_Q m) dm (dq * nh) \<and>
     is_Linear (mha_W_K m) dm (dk * nh) \<and>
     is_Linear (mha_W_V m) dm (dv * nh) \<and>
     is_Linear (mha_W_O m) (dv * nh) dm \<and>
     drop_p (mha_dropout m) = p \<and>
     mha_scale m = sqrt (real dk)"

text \<open>The start of the slice \<open>length:\<close> on a dimension of extent \<open>n\<close>.\<close>

definition slice_start :: "int \<Rightarrow> nat \<Rightarrow> nat" where
  "slice_start l n = (if l < 0 then nat (max (int n + l) 0) else min (nat l) n)"

text \<open>
  \<open>for i, length in enumerate(src_batch_lens): mask[i, :, :, length:] = True\<close>, from
  position \<open>i\<close> of the enumeration on.
\<close>

fun mask_loop :: "bool tensor \<Rightarrow> nat \<Rightarrow> int list \<Rightarrow> error + bool tensor" where
  "mask_loop msk i [] = Inr msk"
| "mask_loop msk i (l # rest) =
     (if shape msk ! 0 \<le> i then Inl (IndexError ''index out of bounds for dimension 0'')
      else mask_loop
             (tabulate (shape msk)
                (\<lambda>idx. if idx ! 0 = i \<and> slice_start l (shape msk ! 3) \<le> idx ! 3 then True
                        else elem msk idx))
             (Suc i) rest)"

definition masked_fill :: "fval tensor \<Rightarrow> bool tensor \<Rightarrow> fval \<Rightarrow> fval tensor" where
  "masked_fill t msk v = tabulate (shape t) (\<lambda>idx. if elem msk idx then v else elem t idx)"

text \<open>The \<open>if src_batch_lens is not None\<close> block.\<close>

definition apply_lens_mask :: "fval tensor \<Rightarrow> int list option \<Rightarrow> error + fval tensor" where
  "apply_lens_mask scores src_batch_lens =
     (case src_batch_lens of
        None \<Rightarrow> Inr scores
      | Some lens \<Rightarrow>
          then_do (mask_loop (tabulate (shape scores) (\<lambda>idx. False)) 0 lens)
            (\<lambda>msk. Inr (masked_fill scores msk NInf)))"

text \<open>
  \<open>MultiHeadAttention.forward\<close> up to the masking of the scores: the scores that enter the
  softmax, together with \<open>V\<close>.
\<close>

definition attention_scores ::
  "MultiHeadAttention \<Rightarrow> fval tensor \<Rightarrow> fval tensor \<Rightarrow> fval tensor \<Rightarrow> int list option
   \<Rightarrow> error + fval tensor \<times> fval tensor" where
  "attention_scores self x_Q x_K x_V src_batch_lens =
     (case shape x_Q of
        [batch_size, seq_len, uu] \<Rightarrow>
          then_do (Linear_forward (mha_W_Q self) x_Q) (\<lambda>q.
          then_do (view q [int batch_size, int seq_len, int (mha_numhead self), int (mha_d_Q self)]) (\<lambda>q.
          then_do (transpose_dims q 1 2) (\<lambda>Q.
          then_do (Linear_forward (mha_W_K self) x_K) (\<lambda>k.
          then_do (view k [int batch_size, int seq_len, int (mha_numhead self), int (mha_d_K self)]) (\<lambda>k.
          then_do (transpose_dims k 1 2) (\<lambda>K.
          then_do (Linear_forward (mha_W_V self) x_V) (\<lambda>v.
          then_do (view v [int batch_size, int seq_len, int (mha_numhead self), int (mha_d_V self)]) (\<lambda>v.
          then_do (transpose_dims v 1 2) (\<lambda>V.
          then_do (transpose_dims K (- 2) (- 1)) (\<lambda>Kt.
          then_do (matmul Q Kt) (\<lambda>qk.
          let scores = map_tensor (\<lambda>s. fdiv s (Fin (mha_scale self))) qk in
          then_do (apply_lens_mask scores src_batch_lens) (\<lambda>scores.
            Inr (scores, V)))))))))))))
      | _ \<Rightarrow> Inl (ValueError ''not enough values to unpack''))"

text \<open>Up to \<open>attention = F.softmax(scores, dim=-1)\<close>: the attention weights, with \<open>V\<close>.\<close>

definition attention_weights ::
  "MultiHeadAttention \<Rightarrow> fval tensor \<Rightarrow> fval tensor \<Rightarrow> fval tensor \<Rightarrow> int list option
   \<Rightarrow> error + fval tensor \<times> fval tensor" where
  "attention_weights self x_Q x_K x_V src_batch_lens =
     then_do (attention_scores self x_Q x_K x_V src_batch_lens)
       (\<lambda>(scores, V). Inr (softmax_last scores, V))"

definition MultiHeadAttention_forward ::
  "MultiHeadAttention \<Rightarrow> fval tensor \<Rightarrow> fval tensor \<Rightarrow> fval tensor \<Rightarrow> int list option
   \<Rightarrow> error + fval tensor" where
  "MultiHeadAttention_forward self x_Q x_K x_V src_batch_lens =
     then_do (attention_weights self x_Q x_K x_V src_batch_lens) (\<lambda>(attention, V).
       let attention = Dropout_forward (mha_dropout self) 0 attention in
       then_do (matmul attention V) (\<lambda>av.
       then_do (transpose_dims av 1 2) (\<lambda>av.
       then_do (view (contiguous av) [int (shape x_Q ! 0), int (shape x_Q ! 1), - 1]) (\<lambda>av.
         Linear_forward (mha_W_O self) av))))"

subsection \<open>TF_Encoder_Block\<close>

record TF_Encoder_Block =
  blk_attention :: MultiHeadAttention
  blk_ff1 :: nn_Linear
  blk_ff_dropout :: nn_Dropout
  blk_ff2 :: nn_Linear
  blk_norm1 :: nn_LayerNorm
  blk_norm2 :: nn_LayerNorm
  blk_dropout :: nn_Dropout

definition is_LayerNorm :: "nn_LayerNorm \<Rightarrow> nat \<Rightarrow> bool" where
  "is_LayerNorm lnm dm \<longleftrightarrow>
     shape (ln_weight lnm) = [dm] \<and> shape (ln_bias lnm) = [dm] \<and> ln_eps lnm = 1 / 100000"

text \<open>What \<open>TF_Encoder_Block.__init__\<close> establishes; \<open>//\<close> raises for \<open>numhead = 0\<close>.\<close>

definition TF_Encoder_Block_init :: "nat \<Rightarrow> nat \<Rightarrow> nat \<Rightarrow> real \<Rightarrow> TF_Encoder_Block \<Rightarrow> bool" where
  "TF_Encoder_Block_init dm dff nh p blk \<longleftrightarrow>
     nh \<noteq> 0 \<and>
     MultiHeadAttention_init dm (dm div nh) (dm div nh) (dm div nh) nh p (blk_attention blk) \<and>
     is_Linear (blk_ff1 blk) dm dff \<and>
     drop_p (blk_ff_dropout blk) = p \<and>
     is_Linear (blk_ff2 blk) dff dm \<and>
     is_LayerNorm (blk_norm1 blk) dm \<and>
     is_LayerNorm (blk_norm2 blk) dm \<and>
     drop_p (blk_dropout blk) = p"

definition ff_network :: "TF_Encoder_Block \<Rightarrow> fval tensor \<Rightarrow> error + fval tensor" where
  "ff_network self x =
     then_do (Linear_forward (blk_ff1 self) x) (\<lambda>y.
       Linear_forward (blk_ff2 self) (Dropout_forward (blk_ff_dropout self) 0 (relu y)))"

definition TF_Encoder_Block_forward ::
  "TF_Encoder_Block \<Rightarrow> fval tensor \<Rightarrow> int list option \<Rightarrow> error + fval tensor" where
  "TF_Encoder_Block_forward self x src_batch_lens =
     then_do (MultiHeadAttention_forward (blk_attention self) x x x src_batch_lens) (\<lambda>att_out.
     then_do (tensor_fadd x (Dropout_forward (blk_dropout self) 0 att_out)) (\<lambda>r1.
     then_do (LayerNorm_forward (blk_norm1 self) r1) (\<lambda>x.
     then_do (ff_network self x) (\<lambda>ff_out.
     then_do (tensor_fadd x (Dropout_forward (blk_dropout self) 1 ff_out)) (\<lambda>r2.
       LayerNorm_forward (blk_norm2 self) r2)))))"

subsection \<open>TF_Encoder\<close>

record TF_Encoder =
  enc_numlayer :: nat
  enc_src_embed :: nn_Embedding
  enc_dropout :: nn_Dropout
  enc_encoder_layers :: "TF_Encoder_Block list"

text \<open>What \<open>TF_Encoder.__init__\<close> establishes.\<close>

definition TF_Encoder_init :: "nat \<Rightarrow> nat \<Rightarrow> nat \<Rightarrow> nat \<Rightarrow> nat \<Rightarrow> real \<Rightarrow> TF_Encoder \<Rightarrow> bool" where
  "TF_Encoder_init vocab dm dff nl nh p enc \<longleftrightarrow>
     enc_numlayer enc = nl \<and>
     shape (emb_weight (enc_src_embed enc)) = [vocab, dm] \<and>
     drop_p (enc_dropout enc) = p \<and>
     length (enc_encoder_layers enc) = nl \<and>
     list_all (TF_Encoder_Block_init dm dff nh p) (enc_encoder_layers enc)"

text \<open>
  \<open>for encoder_layer in self.encoder_layers: out = encoder_layer(x, src_batch_lens)\<close>.
  The loop assigns \<open>out\<close> and never \<open>x\<close>; \<open>out\<close> is unbound until the first iteration.
\<close>

fun encoder_loop ::
  "TF_Encoder_Block list \<Rightarrow> fval tensor \<Rightarrow> int list option \<Rightarrow> fval tensor option
   \<Rightarrow> error + fval tensor option" where
  "encoder_loop [] x src_batch_lens out = Inr out"
| "encoder_loop (encoder_layer # rest) x src_batch_lens out =
     then_do (TF_Encoder_Block_forward encoder_layer x src_batch_lens)
       (\<lambda>out. encoder_loop rest x src_batch_lens (Some out))"

text \<open>The input of the first block: embedding, dropout, positional encoding added.\<close>

definition encoder_input :: "TF_Encoder \<Rightarrow> int tensor \<Rightarrow> error + fval tensor" where
  "encoder_input self x =
     then_do (Embedding_forward (enc_src_embed self) x) (\<lambda>x_embed.
       let x = Dropout_forward (enc_dropout self) 0 x_embed in
       if length (shape x) < 3 then Inl (IndexError ''tuple index out of range'')
       else
         let p_enc = PosEncoding (shape x ! 1) (shape x ! 2)
         in tensor_fadd x (map_tensor Fin p_enc))"

definition TF_Encoder_forward ::
  "TF_Encoder \<Rightarrow> int tensor \<Rightarrow> int list option \<Rightarrow> error + fval tensor" where
  "TF_Encoder_forward self x src_batch_lens =
     then_do (encoder_input self x) (\<lambda>x.
     then_do (encoder_loop (enc_encoder_layers self) x src_batch_lens None) (\<lambda>out.
       case out of
         None \<Rightarrow> Inl (UnboundLocalError ''local variable 'out' referenced before assignment'')
       | Some out \<Rightarrow> Inr out))"

subsection \<open>The stack as the specification words it\<close>

text \<open>
  Blocks applied in sequence, each consuming the previous block's output and the same
  length vector.
\<close>

fun chained_blocks ::
  "TF_Encoder_Block list \<Rightarrow> fval tensor \<Rightarrow> int list option \<Rightarrow> error + fval tensor" where
  "chained_blocks [] x src_batch_lens = Inr x"
| "chained_blocks (encoder_layer # rest) x src_batch_lens =
     then_do (TF_Encoder_Block_forward encoder_layer x src_batch_lens)
       (\<lambda>out. chained_blocks rest out src_batch_lens)"

subsection \<open>Finite tensors\<close>

text \<open>Every element of the tensor is a finite value.\<close>

definition finite_elems :: "fval tensor \<Rightarrow> bool" where
  "finite_elems t \<longleftrightarrow> (\<forall>idx. valid_index (shape t) idx \<longrightarrow> is_Fin (elem t idx))"

section \<open>Properties of view_as_windows\<close>

lemma dot_index_nth:
  "dot_index idx sts = (\<Sum>k<min (length idx) (length sts). idx ! k * sts ! k)"
  unfolding dot_index_def
  by (simp add: sum_list_sum_nth atLeast0LessThan)

lemma dot_index_append:
  "length i = length a \<Longrightarrow> dot_index (i @ j) (a @ b) = dot_index i a + dot_index j b"
  unfolding dot_index_def by simp

lemma dot_index_mono:
  assumes "length i = length j" "\<forall>k<length i. i ! k \<le> j ! k"
  shows "dot_index i s \<le> dot_index j s"
  unfolding dot_index_nth using assms
  by (auto intro!: sum_mono mult_right_mono)

lemma expand_step_ok:
  "\<not> bad_step st \<Longrightarrow> expand_step n st = Inr (expand_arg n st)"
  by (auto simp: bad_step_def expand_step_def expand_arg_def split: pyarg.splits)

lemma good_step_all:
  "\<not> bad_step st \<Longrightarrow> k < length (expand_arg n st) \<Longrightarrow> 1 \<le> expand_arg n st ! k"
  by (auto simp: bad_step_def expand_arg_def list_ex_length split: pyarg.splits)

lemma window_fits_nth:
  "window_fits shp W \<Longrightarrow> k < length shp \<Longrightarrow> 1 \<le> W ! k \<and> W ! k \<le> int (shp ! k)"
  by (auto simp: window_fits_def list_all2_conv_all_nth)

lemma window_fits_length: "window_fits shp W \<Longrightarrow> length W = length shp"
  by (auto simp: window_fits_def list_all2_lengthD)

lemma not_too_large:
  "window_fits shp W \<Longrightarrow> \<not> list_ex (\<lambda>d. d < 0) (map2 (-) (map int shp) W)"
  by (auto simp: list_ex_length dest: window_fits_nth window_fits_length)

lemma not_too_small:
  "window_fits shp W \<Longrightarrow> \<not> list_ex (\<lambda>w. w - 1 < 0) W"
proof
  assume f: "window_fits shp W" and "list_ex (\<lambda>w. w - 1 < 0) W"
  then obtain k where k: "k < length W" "W ! k < 1" by (auto simp: list_ex_length)
  with window_fits_nth[OF f, of k] window_fits_length[OF f] show False by simp
qed

lemma src_index_nth:
  "k < length i \<Longrightarrow> length S = length i \<Longrightarrow> length j = length i \<Longrightarrow>
   src_index S i j ! k = i ! k * nat (S ! k) + j ! k"
  by (simp add: src_index_def)

lemma length_src_index:
  "length S = length i \<Longrightarrow> length j = length i \<Longrightarrow> length (src_index S i j) = length i"
  by (simp add: src_index_def)

lemma dot_index_window:
  assumes "length i = n" "length j = n" "length S = n" "length sts = n"
  shows "dot_index (i @ j) (map2 (\<lambda>sd st. sd * nat st) sts S @ sts) = dot_index (src_index S i j) sts"
proof -
  have "dot_index (i @ j) (map2 (\<lambda>sd st. sd * nat st) sts S @ sts)
        = dot_index i (map2 (\<lambda>sd st. sd * nat st) sts S) + dot_index j sts"
    using assms by (simp add: dot_index_append)
  also have "\<dots> = (\<Sum>k<n. i ! k * (sts ! k * nat (S ! k))) + (\<Sum>k<n. j ! k * sts ! k)"
    using assms by (simp add: dot_index_nth)
  also have "\<dots> = (\<Sum>k<n. (i ! k * nat (S ! k) + j ! k) * sts ! k)"
    by (simp add: sum.distrib algebra_simps)
  also have "\<dots> = dot_index (src_index S i j) sts"
    using assms by (simp add: dot_index_nth length_src_index src_index_nth)
  finally show ?thesis .
qed

lemma window_step_bound:
  fixes d :: nat and w s :: int and i j :: nat
  assumes "1 \<le> w" "w \<le> int d" "1 \<le> s" "i < nat ((int d - w) div s + 1)" "j < nat w"
  shows "i * nat s + j < d"
proof -
  have "int i \<le> (int d - w) div s" using assms by linarith
  then have "int i * s \<le> ((int d - w) div s) * s"
    using assms(3) by (intro mult_right_mono) auto
  also have "\<dots> \<le> int d - w"
    using assms(3) by (metis add.commute add_le_cancel_left div_mult_mod_eq pos_mod_sign zero_less_one_class.zero_less_one order_less_le_trans le_add_same_cancel2 zero_less_one less_le_not_le linorder_not_le)
  finally have "int i * s + int j < int d" using assms by linarith
  moreover have "int (i * nat s + j) = int i * s + int j" using assms(3) by simp
  ultimately show ?thesis by linarith
qed

lemma positions_nth:
  "k < length shp \<Longrightarrow> length W = length shp \<Longrightarrow> length S = length shp \<Longrightarrow>
   positions shp W S ! k = nat ((int (shp ! k) - W ! k) div S ! k + 1)"
  by (simp add: positions_def)

lemma length_positions:
  "length W = length shp \<Longrightarrow> length S = length shp \<Longrightarrow> length (positions shp W S) = length shp"
  by (simp add: positions_def)

lemma win_indices_shape_eq:
  assumes "window_fits shp W" "length S = length shp" "\<forall>k<length S. 1 \<le> S ! k"
  shows "map nat (map2 (\<lambda>d st. d div st + 1) (map2 (-) (map int shp) W) S) = positions shp W S"
  using assms window_fits_length[OF assms(1)]
  by (intro nth_equalityI) (simp_all add: positions_def)

lemma src_index_valid:
  assumes f: "window_fits shp W" and S: "length S = length shp" "\<forall>k<length S. 1 \<le> S ! k"
    and i: "length i = length shp" and j: "length j = length shp"
    and v: "valid_index (positions shp W S @ map nat W) (i @ j)"
  shows "valid_index shp (src_index S i j)"
proof -
  have lw: "length W = length shp" by (rule window_fits_length[OF f])
  have lp: "length (positions shp W S) = length shp" using lw S by (simp add: length_positions)
  from v have "list_all2 (<) i (positions shp W S) \<and> list_all2 (<) j (map nat W)"
    unfolding valid_index_def using i lp by (simp add: list_all2_append)
  then have vi: "\<And>k. k < length shp \<Longrightarrow> i ! k < positions shp W S ! k"
    and vj: "\<And>k. k < length shp \<Longrightarrow> j ! k < nat (W ! k)"
    using i j lw by (auto simp: list_all2_conv_all_nth)
  show ?thesis
    unfolding valid_index_def list_all2_conv_all_nth
  proof (intro conjI allI impI)
    show "length (src_index S i j) = length shp" using S i j by (simp add: length_src_index)
  next
    fix k assume "k < length (src_index S i j)"
    then have k: "k < length shp" using S i j by (simp add: length_src_index)
    have "i ! k * nat (S ! k) + j ! k < shp ! k"
      using window_fits_nth[OF f k] S k vi[OF k] vj[OF k] lw
      by (intro window_step_bound[where w = "W ! k"]) (simp_all add: positions_nth)
    then show "src_index S i j ! k < shp ! k"
      using k S i j by (simp add: src_index_nth)
  qed
qed

lemma valid_index_le_max:
  assumes "valid_index shp idx"
  shows "dot_index idx sts \<le> max_reach shp sts"
  unfolding max_reach_def
  using assms
  by (intro dot_index_mono) (auto simp: valid_index_def list_all2_conv_all_nth)

lemma valid_index_in_storage:
  assumes "wf_tensor t" "valid_index (shape t) idx"
  shows "offset t + dot_index idx (strides t) < length (storage t)"
proof -
  have "0 \<notin> set (shape t)"
    using assms(2) by (auto simp: valid_index_def list_all2_conv_all_nth in_set_conv_nth)
  then have "offset t + max_reach (shape t) (strides t) < length (storage t)"
    using assms(1) by (simp add: wf_tensor_def in_bounds_def)
  with valid_index_le_max[OF assms(2), of "strides t"] show ?thesis by linarith
qed

lemma positions_pos:
  assumes "window_fits shp W" "length S = length shp" "\<forall>k<length S. 1 \<le> S ! k" "k < length shp"
  shows "0 < positions shp W S ! k"
proof -
  have "0 \<le> (int (shp ! k) - W ! k) div S ! k"
    using window_fits_nth[OF assms(1) assms(4)] assms(2,3,4)
    by (intro pos_imp_zdiv_nonneg_iff[THEN iffD2]) auto
  then show ?thesis
    using assms window_fits_length[OF assms(1)] by (simp add: positions_nth)
qed

lemma window_view_in_bounds:
  assumes wf: "wf_tensor t" and f: "window_fits (shape t) W"
    and S: "length S = length (shape t)" "\<forall>k<length S. 1 \<le> S ! k"
  shows "in_bounds (length (storage t)) (offset t)
           (positions (shape t) W S @ map nat W)
           (map2 (\<lambda>sd st. sd * nat st) (strides t) S @ strides t)"
proof -
  let ?shp = "shape t" and ?P = "positions (shape t) W S"
  let ?i = "map (\<lambda>d. d - 1) ?P" and ?j = "map (\<lambda>d. d - 1) (map nat W)"
  have lw: "length W = length ?shp" by (rule window_fits_length[OF f])
  have lp: "length ?P = length ?shp" using lw S by (simp add: length_positions)
  have ls: "length (strides t) = length ?shp" using wf by (simp add: wf_tensor_def)
  have v: "valid_index (?P @ map nat W) (?i @ ?j)"
    unfolding valid_index_def
  proof (rule list_all2_appendI)
    show "list_all2 (<) ?i ?P"
      using positions_pos[OF f S] lp by (auto simp: list_all2_conv_all_nth)
    show "list_all2 (<) ?j (map nat W)"
      unfolding list_all2_conv_all_nth
    proof (intro conjI allI impI)
      fix k assume "k < length ?j"
      then have k: "k < length ?shp" using lw by simp
      from window_fits_nth[OF f k] have "0 < nat (W ! k)" by simp
      then show "?j ! k < map nat W ! k" using k lw by simp
    qed simp
  qed
  have "max_reach (?P @ map nat W) (map2 (\<lambda>sd st. sd * nat st) (strides t) S @ strides t)
        = dot_index (?i @ ?j) (map2 (\<lambda>sd st. sd * nat st) (strides t) S @ strides t)"
    by (simp add: max_reach_def)
  also have "\<dots> = dot_index (src_index S ?i ?j) (strides t)"
    using lp lw S ls by (intro dot_index_window[where n = "length ?shp"]) simp_all
  also have "\<dots> \<le> max_reach ?shp (strides t)"
    using lp lw by (intro valid_index_le_max src_index_valid[OF f S _ _ v]) simp_all
  finally have le: "max_reach (?P @ map nat W) (map2 (\<lambda>sd st. sd * nat st) (strides t) S @ strides t)
        \<le> max_reach ?shp (strides t)" .
  have "0 \<notin> set ?shp"
    using window_fits_nth[OF f] by (fastforce simp: in_set_conv_nth)
  then have "offset t + max_reach ?shp (strides t) < length (storage t)"
    using wf by (simp add: wf_tensor_def in_bounds_def)
  with le show ?thesis by (simp add: in_bounds_def)
qed

subsection \<open>The int64 model on valid arguments\<close>

lemma wrap64_id: "int64_ok v \<Longrightarrow> wrap64 v = v"
  by (simp add: wrap64_def int64_ok_def)


lemma arith64_id: "(int64_tensor t \<Longrightarrow> int64_ok v) \<Longrightarrow> arith64 t v = v"
  by (simp add: arith64_def wrap64_id)

lemma int64_tensor_shape:
  "int64_tensor t \<Longrightarrow> k < length (shape t) \<Longrightarrow> int (shape t ! k) < 2 ^ 63"
  by (simp add: int64_tensor_def int64_ok_def list_all_length)

lemma window_diff_exact:
  assumes f: "window_fits (shape t) W"
  shows "map2 (\<lambda>d w. arith64 t (d - w)) (map int (shape t)) W = map2 (-) (map int (shape t)) W"
proof (rule nth_equalityI)
  show "length (map2 (\<lambda>d w. arith64 t (d - w)) (map int (shape t)) W)
        = length (map2 (-) (map int (shape t)) W)" by simp
next
  fix k assume "k < length (map2 (\<lambda>d w. arith64 t (d - w)) (map int (shape t)) W)"
  then have k: "k < length (shape t)" "k < length W" by simp_all
  have "arith64 t (int (shape t ! k) - W ! k) = int (shape t ! k) - W ! k"
  proof (rule arith64_id)
    assume "int64_tensor t"
    from int64_tensor_shape[OF this k(1)] window_fits_nth[OF f k(1)]
    show "int64_ok (int (shape t ! k) - W ! k)" by (simp add: int64_ok_def)
  qed
  then show "map2 (\<lambda>d w. arith64 t (d - w)) (map int (shape t)) W ! k
             = map2 (-) (map int (shape t)) W ! k"
    using k by simp
qed

lemma window_int64:
  assumes f: "window_fits (shape t) W"
  shows "\<not> (int64_tensor t \<and> list_ex (\<lambda>w. \<not> int64_ok w) W)"
proof
  assume a: "int64_tensor t \<and> list_ex (\<lambda>w. \<not> int64_ok w) W"
  then obtain k where k: "k < length W" "\<not> int64_ok (W ! k)" by (auto simp: list_ex_length)
  have kk: "k < length (shape t)" using k window_fits_length[OF f] by simp
  from int64_tensor_shape[OF _ kk] a window_fits_nth[OF f kk] k(2)
  show False by (simp add: int64_ok_def)
qed

lemma not_too_small64:
  assumes f: "window_fits (shape t) W"
  shows "\<not> list_ex (\<lambda>w. arith64 t (w - 1) < 0) W"
proof
  assume "list_ex (\<lambda>w. arith64 t (w - 1) < 0) W"
  then obtain k where k: "k < length W" "arith64 t (W ! k - 1) < 0" by (auto simp: list_ex_length)
  have kk: "k < length (shape t)" using k window_fits_length[OF f] by simp
  have "arith64 t (W ! k - 1) = W ! k - 1"
  proof (rule arith64_id)
    assume "int64_tensor t"
    from int64_tensor_shape[OF this kk] window_fits_nth[OF f kk]
    show "int64_ok (W ! k - 1)" by (simp add: int64_ok_def)
  qed
  with k(2) window_fits_nth[OF f kk] show False by simp
qed

lemma slice_strides_exact:
  assumes ls: "length (strides t) = length S"
    and S1: "\<forall>k<length S. 1 \<le> S ! k"
    and pr: "int64_tensor t \<Longrightarrow> \<forall>k<length S. int (strides t ! k) * S ! k < 2 ^ 63"
  shows "slice_strides t S = Inr (map2 (\<lambda>sd st. int sd * st) (strides t) S)"
proof -
  have nb: "\<not> list_ex (\<lambda>st. st < 1) S" using S1 by (auto simp: list_ex_length)
  have "map2 (\<lambda>sd st. arith64 t (int sd * st)) (strides t) S
        = map2 (\<lambda>sd st. int sd * st) (strides t) S"
  proof (rule nth_equalityI)
    show "length (map2 (\<lambda>sd st. arith64 t (int sd * st)) (strides t) S)
          = length (map2 (\<lambda>sd st. int sd * st) (strides t) S)" by simp
  next
    fix k assume "k < length (map2 (\<lambda>sd st. arith64 t (int sd * st)) (strides t) S)"
    then have k: "k < length S" "k < length (strides t)" by simp_all
    have "arith64 t (int (strides t ! k) * S ! k) = int (strides t ! k) * S ! k"
    proof (rule arith64_id)
      assume i: "int64_tensor t"
      have "0 \<le> int (strides t ! k) * S ! k" using S1 k by (simp add: order_trans[of 0 1])
      with pr[OF i] k show "int64_ok (int (strides t ! k) * S ! k)"
        by (simp add: int64_ok_def order_trans[of "- (2 ^ 63)" 0])
    qed
    then show "map2 (\<lambda>sd st. arith64 t (int sd * st)) (strides t) S ! k
               = map2 (\<lambda>sd st. int sd * st) (strides t) S ! k"
      using k by simp
  qed
  then show ?thesis using nb by (simp add: slice_strides_def)
qed

lemma nat_strides:
  assumes "length sts = length S" "\<forall>k<length S. 1 \<le> S ! k"
  shows "map nat (map2 (\<lambda>sd st. int sd * st) sts S @ map int sts)
         = map2 (\<lambda>sd st. sd * nat st) sts S @ sts"
proof -
  have "map nat (map2 (\<lambda>sd st. int sd * st) sts S) = map2 (\<lambda>sd st. sd * nat st) sts S"
    using assms by (intro nth_equalityI) (simp_all add: nat_mult_distrib)
  then show ?thesis by (simp add: comp_def)
qed

lemma view_as_windows_ok:
  assumes wf: "wf_tensor t" and f: "window_fits (shape t) (expand_arg (length (shape t)) ws)"
    and S: "length (expand_arg (length (shape t)) st) = length (shape t)" "\<not> bad_step st"
    and S64: "\<forall>k<length (shape t). expand_arg (length (shape t)) st ! k < 2 ^ 63"
    and pr: "int64_tensor t \<Longrightarrow>
               \<forall>k<length (shape t). int (strides t ! k) * expand_arg (length (shape t)) st ! k < 2 ^ 63"
  shows "view_as_windows (IsTensor t) ws st =
           Inr (t\<lparr>shape := positions (shape t) (expand_arg (length (shape t)) ws)
                             (expand_arg (length (shape t)) st)
                           @ map nat (expand_arg (length (shape t)) ws),
                  strides := map2 (\<lambda>sd s. sd * nat s) (strides t)
                               (expand_arg (length (shape t)) st) @ strides t\<rparr>)"
proof -
  let ?n = "length (shape t)"
  let ?W = "expand_arg ?n ws" and ?S = "expand_arg ?n st"
  let ?is = "map2 (\<lambda>sd st. int sd * st) (strides t) ?S"
  have lw: "length ?W = ?n" by (rule window_fits_length[OF f])
  have S1: "\<forall>k<length ?S. 1 \<le> ?S ! k" using good_step_all[OF S(2)] by blast
  have ls: "length (strides t) = ?n" using wf by (simp add: wf_tensor_def)
  have sl: "slice_strides t ?S = Inr ?is"
    using ls S(1) S1 pr by (intro slice_strides_exact) simp_all
  have ok64: "\<not> list_ex (\<lambda>st. \<not> int64_ok st) ?S"
    using S1 S64 S(1) by (auto simp: list_ex_length int64_ok_def order_trans[of "- (2 ^ 63)" 1])
  have df: "map2 (\<lambda>d w. arith64 t (d - w)) (map int (shape t)) ?W = map2 (-) (map int (shape t)) ?W"
    by (rule window_diff_exact[OF f])
  have pos: "map nat (map2 (\<lambda>d st. d div st + 1) (map2 (-) (map int (shape t)) ?W) ?S)
             = positions (shape t) ?W ?S"
    by (rule win_indices_shape_eq[OF f S(1) S1])
  have nn1: "\<not> list_ex (\<lambda>d. d < 0) (map2 (\<lambda>d st. d div st + 1) (map2 (-) (map int (shape t)) ?W) ?S)"
  proof
    assume "list_ex (\<lambda>d. d < 0) (map2 (\<lambda>d st. d div st + 1) (map2 (-) (map int (shape t)) ?W) ?S)"
    then obtain k where k: "k < ?n" "(int (shape t ! k) - ?W ! k) div ?S ! k + 1 < 0"
      using lw S(1) by (auto simp: list_ex_length)
    have "0 \<le> (int (shape t ! k) - ?W ! k) div ?S ! k"
      using window_fits_nth[OF f k(1)] S(1) S1 k(1)
      by (intro pos_imp_zdiv_nonneg_iff[THEN iffD2]) auto
    with k show False by simp
  qed
  have nn2: "\<not> list_ex (\<lambda>d. d < 0) ?W"
    using window_fits_nth[OF f] lw by (fastforce simp: list_ex_length)
  have nn3: "\<not> list_ex (\<lambda>s. s < 0) (?is @ map int (strides t))"
  proof -
    have "0 \<le> int (strides t ! k) * ?S ! k" if "k < ?n" for k
      using S1 S(1) that by (simp add: order_trans[of 0 1])
    then have "\<not> int (strides t ! k) * ?S ! k < 0" if "k < ?n" for k
      using that by (simp add: not_less)
    then show ?thesis using ls S(1) by (auto simp: list_ex_length nth_append)
  qed
  have ns: "map nat (?is @ map int (strides t))
            = map2 (\<lambda>sd st. sd * nat st) (strides t) ?S @ strides t"
    using ls S(1) S1 by (intro nat_strides) simp_all
  have as: "as_strided t (map2 (\<lambda>d st. d div st + 1) (map2 (-) (map int (shape t)) ?W) ?S @ ?W)
              (?is @ map int (strides t))
            = Inr (t\<lparr>shape := positions (shape t) ?W ?S @ map nat ?W,
                     strides := map2 (\<lambda>sd s. sd * nat s) (strides t) ?S @ strides t\<rparr>)"
    unfolding as_strided_def ns
    using nn1 nn2 nn3 lw S(1) ls window_view_in_bounds[OF wf f S(1) S1] pos
    by simp
  show ?thesis
    using lw S(1) not_too_large[OF f] not_too_small64[OF f] window_int64[OF f] sl as ok64
      expand_step_ok[OF S(2), of ?n]
    by (simp add: view_as_windows_def Let_def expand_arg_def[symmetric] df)
qed









lemma int64_safe_nth:
  assumes "int64_safe t S" "length (strides t) = length (shape t)" "k < length (shape t)"
  shows "int (shape t ! k) + S ! k < 2 ^ 63" "int (strides t ! k) * S ! k < 2 ^ 63"
  using assms by (auto simp: int64_safe_def list_all2_conv_all_nth)

lemma int64_safe_length:
  "int64_safe t S \<Longrightarrow> length (strides t) = length (shape t) \<Longrightarrow> length S = length (shape t)"
  by (auto simp: int64_safe_def dest: list_all2_lengthD)

lemma view_as_windows_safe:
  assumes wf: "wf_tensor t" and f: "window_fits (shape t) (expand_arg (length (shape t)) ws)"
    and b: "\<not> bad_step st"
    and safe: "int64_safe t (expand_arg (length (shape t)) st)"
  shows "view_as_windows (IsTensor t) ws st =
           Inr (t\<lparr>shape := positions (shape t) (expand_arg (length (shape t)) ws)
                             (expand_arg (length (shape t)) st)
                           @ map nat (expand_arg (length (shape t)) ws),
                  strides := map2 (\<lambda>sd s. sd * nat s) (strides t)
                               (expand_arg (length (shape t)) st) @ strides t\<rparr>)"
proof -
  let ?n = "length (shape t)"
  let ?S = "expand_arg ?n st"
  have ls: "length (strides t) = ?n" using wf by (simp add: wf_tensor_def)
  have lS: "length ?S = ?n" by (rule int64_safe_length[OF safe ls])
  have S64: "\<forall>k<?n. ?S ! k < 2 ^ 63"
  proof (intro allI impI)
    fix k assume k: "k < ?n"
    from int64_safe_nth(1)[OF safe ls k] show "?S ! k < 2 ^ 63" by linarith
  qed
  have pr: "\<forall>k<?n. int (strides t ! k) * ?S ! k < 2 ^ 63"
    using int64_safe_nth(2)[OF safe ls] by blast
  show ?thesis by (rule view_as_windows_ok[OF wf f lS b S64 pr])
qed


lemma bad_scalar_bad_step: "bad_scalar_step st \<Longrightarrow> bad_step st"
  by (auto simp: bad_scalar_step_def bad_step_def split: pyarg.splits)






section \<open>Row-major indexing and freshly built tensors\<close>

lemma length_concat_uniform:
  "(\<And>xs. xs \<in> set xss \<Longrightarrow> length xs = n) \<Longrightarrow> length (concat xss) = length xss * n"
  by (induction xss) auto

lemma nth_concat_uniform:
  "(\<And>xs. xs \<in> set xss \<Longrightarrow> length xs = n) \<Longrightarrow> i < length xss \<Longrightarrow> r < n \<Longrightarrow>
   concat xss ! (i * n + r) = xss ! i ! r"
proof (induction xss arbitrary: i)
  case Nil
  then show ?case by simp
next
  case (Cons xs xss)
  show ?case
  proof (cases i)
    case 0
    with Cons.prems show ?thesis by (simp add: nth_append)
  next
    case (Suc k)
    with Cons.prems have "concat xss ! (k * n + r) = xss ! k ! r"
      by (intro Cons.IH) auto
    moreover have "length xs = n" using Cons.prems by simp
    ultimately show ?thesis using Suc by (simp add: nth_append)
  qed
qed

lemma length_all_indices: "length (all_indices shp) = prod_list shp"
proof (induction shp)
  case Nil
  then show ?case by simp
next
  case (Cons d ds)
  have "length (concat (map (\<lambda>i. map ((#) i) (all_indices ds)) [0..<d])) = length (map (\<lambda>i. map ((#) i) (all_indices ds)) [0..<d]) * prod_list ds"
    by (rule length_concat_uniform) (auto simp: Cons.IH)
  then show ?case by simp
qed

lemma ravel_all_indices:
  "valid_index shp idx \<Longrightarrow>
   dot_index idx (contiguous_strides shp) < prod_list shp \<and>
   all_indices shp ! dot_index idx (contiguous_strides shp) = idx"
proof (induction shp arbitrary: idx)
  case Nil
  then show ?case by (simp add: valid_index_def dot_index_def)
next
  case (Cons d ds)
  from Cons.prems obtain i js where idx: "idx = i # js" and i: "i < d" and js: "valid_index ds js"
    by (auto simp: valid_index_def list_all2_Cons2)
  let ?r = "dot_index js (contiguous_strides ds)"
  let ?P = "prod_list ds"
  from Cons.IH[OF js] have r: "?r < ?P" and nth: "all_indices ds ! ?r = js" by simp_all
  have dot: "dot_index idx (contiguous_strides (d # ds)) = i * ?P + ?r"
    by (simp add: idx dot_index_def)
  have "i * ?P + ?r < i * ?P + ?P" using r by simp
  also have "\<dots> = Suc i * ?P" by simp
  also have "\<dots> \<le> d * ?P" using i by (intro mult_le_mono1) simp
  finally have b: "i * ?P + ?r < d * ?P" .
  have "concat (map (\<lambda>i. map ((#) i) (all_indices ds)) [0..<d]) ! (i * ?P + ?r)
        = map (\<lambda>i. map ((#) i) (all_indices ds)) [0..<d] ! i ! ?r"
    using i r by (intro nth_concat_uniform) (auto simp: length_all_indices)
  also have "\<dots> = i # js" using i r nth by (simp add: length_all_indices)
  finally show ?case using b dot idx by simp
qed

lemma all_indices_valid:
  "idx \<in> set (all_indices shp) \<Longrightarrow> valid_index shp idx"
  by (induction shp arbitrary: idx) (auto simp: valid_index_def)

lemma elem_contiguous_of:
  "elem (contiguous_of shp xs) idx = xs ! dot_index idx (contiguous_strides shp)"
  by (simp add: elem_def contiguous_of_def)

lemma elem_tabulate:
  "valid_index shp idx \<Longrightarrow> elem (tabulate shp f) idx = f idx"
  using ravel_all_indices[of shp idx]
  by (simp add: tabulate_def elem_contiguous_of length_all_indices)

lemma shape_tabulate [simp]: "shape (tabulate shp f) = shp"
  by (simp add: tabulate_def contiguous_of_def)

lemma shape_contiguous_of [simp]: "shape (contiguous_of shp xs) = shp"
  by (simp add: contiguous_of_def)

lemma length_contiguous_strides [simp]: "length (contiguous_strides shp) = length shp"
  by (induction shp) auto

lemma max_reach_contiguous:
  "0 \<notin> set shp \<Longrightarrow> max_reach shp (contiguous_strides shp) < prod_list shp"
proof -
  assume a: "0 \<notin> set shp"
  have "shp ! k - 1 < shp ! k" if "k < length shp" for k
    using a that by (metis diff_less gr0I nth_mem zero_less_one)
  then have "valid_index shp (map (\<lambda>d. d - 1) shp)"
    by (simp add: valid_index_def list_all2_conv_all_nth)
  from ravel_all_indices[OF this] show ?thesis by (simp add: max_reach_def)
qed

lemma wf_contiguous_of:
  "length xs = prod_list shp \<Longrightarrow> wf_tensor (contiguous_of shp xs)"
  using max_reach_contiguous[of shp]
  by (auto simp: wf_tensor_def contiguous_of_def in_bounds_def)

lemma wf_tabulate: "wf_tensor (tabulate shp f)"
  unfolding tabulate_def by (rule wf_contiguous_of) (simp add: length_all_indices)

lemma length_flat: "length (flat t) = numel t"
  by (simp add: flat_def numel_def length_all_indices)

lemma flat_nth:
  "valid_index (shape t) idx \<Longrightarrow>
   flat t ! dot_index idx (contiguous_strides (shape t)) = elem t idx"
  using ravel_all_indices[of "shape t" idx]
  by (simp add: flat_def length_all_indices)

section \<open>Squeezing, reshaping and helper facts\<close>

lemma all_indices_length: "idx \<in> set (all_indices shp) \<Longrightarrow> length idx = length shp"
  by (induction shp arbitrary: idx) auto

lemma all_indices_insert_one:
  "all_indices (pre @ 1 # post) =
   map (\<lambda>idx. take (length pre) idx @ 0 # drop (length pre) idx) (all_indices (pre @ post))"
proof (induction pre)
  case Nil
  then show ?case by simp
next
  case (Cons p ps)
  then show ?case by (simp add: map_concat comp_def)
qed

lemma dot_index_insert_zero:
  assumes "length a = length sa"
  shows "dot_index (a @ 0 # b) (sa @ x # sb) = dot_index (a @ b) (sa @ sb)"
  using assms by (simp add: dot_index_def)

lemma squeeze_flat:
  assumes ls: "length (strides t) = length (shape t)" and d: "d < length (shape t)"
    and one: "shape t ! d = 1"
  shows "flat (t\<lparr>shape := take d (shape t) @ drop (Suc d) (shape t),
                  strides := take d (strides t) @ drop (Suc d) (strides t)\<rparr>) = flat t"
proof -
  let ?pre = "take d (shape t)" and ?post = "drop (Suc d) (shape t)"
  let ?sa = "take d (strides t)" and ?sb = "drop (Suc d) (strides t)"
  have shp: "shape t = ?pre @ 1 # ?post" using d one by (metis id_take_nth_drop)
  have sts: "strides t = ?sa @ strides t ! d # ?sb" using d ls by (metis id_take_nth_drop)
  have lp: "length ?pre = d" using d by simp
  have "flat t = map (elem t) (all_indices (?pre @ 1 # ?post))"
    unfolding flat_def using shp by simp
  also have "\<dots> = map (\<lambda>idx. elem t (take d idx @ 0 # drop d idx)) (all_indices (?pre @ ?post))"
    unfolding all_indices_insert_one lp by (simp add: comp_def)
  also have "\<dots> = map (elem (t\<lparr>shape := ?pre @ ?post, strides := ?sa @ ?sb\<rparr>)) (all_indices (?pre @ ?post))"
  proof (rule map_cong[OF refl])
    fix idx assume "idx \<in> set (all_indices (?pre @ ?post))"
    then have li: "length idx = length (?pre @ ?post)" by (rule all_indices_length)
    have la: "length (take d idx) = length ?sa" using li d ls by simp
    have "dot_index (take d idx @ 0 # drop d idx) (?sa @ strides t ! d # ?sb)
          = dot_index (take d idx @ drop d idx) (?sa @ ?sb)"
      by (rule dot_index_insert_zero[OF la])
    then have "dot_index (take d idx @ 0 # drop d idx) (strides t) = dot_index idx (?sa @ ?sb)"
      using sts by simp
    then show "elem t (take d idx @ 0 # drop d idx)
               = elem (t\<lparr>shape := ?pre @ ?post, strides := ?sa @ ?sb\<rparr>) idx"
      by (simp add: elem_def)
  qed
  finally show ?thesis by (simp add: flat_def)
qed

lemma squeeze_props:
  assumes "length (strides t) = length (shape t)" "d < length (shape t)"
  shows "\<exists>t'. squeeze t d = Inr t' \<and> flat t' = flat t \<and> numel t' = numel t \<and>
              length (strides t') = length (shape t') \<and>
              length (shape t) \<le> Suc (length (shape t'))"
proof (cases "shape t ! d = 1")
  case True
  have "prod_list (take d (shape t) @ drop (Suc d) (shape t)) = prod_list (shape t)"
    using True assms(2) by (metis id_take_nth_drop prod_list.Cons prod_list.append mult_1)
  then show ?thesis
    using True assms squeeze_flat[OF assms True] by (auto simp: squeeze_def Let_def numel_def)
next
  case False
  then show ?thesis using assms by (simp add: squeeze_def)
qed

lemma infer_shape_plain:
  "prod_list s = n \<Longrightarrow> infer_shape n (map int s) = Inr s"
proof -
  assume p: "prod_list s = n"
  have a: "\<not> list_ex (\<lambda>d. d < - 1) (map int s)" by (auto simp: list_ex_iff)
  have b: "\<not> list_ex (\<lambda>d. d = - 1) (map int s)" by (auto simp: list_ex_iff)
  have c: "filter (\<lambda>d. d = - 1) (map int s) = []" by (auto simp: filter_empty_conv)
  show ?thesis using a b c p by (simp add: infer_shape_def comp_def)
qed

lemma reshape_plain:
  "prod_list s = numel t \<Longrightarrow> reshape t (map int s) = Inr (contiguous_of s (flat t))"
  by (simp add: reshape_def then_do_def infer_shape_plain)

lemma reshape_infer_last:
  "0 < a \<Longrightarrow> numel t = a * b \<Longrightarrow> reshape t [int a, - 1] = Inr (contiguous_of [a, b] (flat t))"
  by (simp add: reshape_def then_do_def infer_shape_def)


lemma window_view_elem:
  assumes "length (strides t) = length (shape t)" "length S = length (shape t)"
    "length i = length (shape t)" "length j = length (shape t)"
  shows "elem (t\<lparr>shape := shp', strides := map2 (\<lambda>sd s. sd * nat s) (strides t) S @ strides t\<rparr>) (i @ j)
         = elem t (src_index S i j)"
  using dot_index_window[OF assms(3) assms(4) assms(2) assms(1)] by (simp add: elem_def)

lemma fold_max_Max: "fold max xs (a :: 'a :: linorder) = Max (set (a # xs))"
  using Max.set_eq_fold[of a xs] by simp

lemma image_lessThan_prod:
  fixes p :: nat
  assumes "0 < p"
  shows "(\<lambda>k. f (k div p) (k mod p)) ` {..<p * p} = (\<lambda>(a, b). f a b) ` ({..<p} \<times> {..<p})"
proof (intro set_eqI iffI)
  fix y assume "y \<in> (\<lambda>k. f (k div p) (k mod p)) ` {..<p * p}"
  then obtain k where k: "k < p * p" "y = f (k div p) (k mod p)" by auto
  have "k div p < p" using k(1) assms by (metis less_mult_imp_div_less)
  moreover have "k mod p < p" using assms by simp
  ultimately show "y \<in> (\<lambda>(a, b). f a b) ` ({..<p} \<times> {..<p})" using k(2) by auto
next
  fix y assume "y \<in> (\<lambda>(a, b). f a b) ` ({..<p} \<times> {..<p})"
  then obtain a b where ab: "a < p" "b < p" "y = f a b" by auto
  have "a * p + b < a * p + p" using ab by simp
  also have "\<dots> = Suc a * p" by simp
  also have "\<dots> \<le> p * p" using ab(1) by (intro mult_le_mono1) simp
  finally have "a * p + b < p * p" .
  moreover have "(a * p + b) div p = a" "(a * p + b) mod p = b" using ab by simp_all
  ultimately show "y \<in> (\<lambda>k. f (k div p) (k mod p)) ` {..<p * p}"
    using ab(3) by (metis (mono_tags, lifting) image_eqI lessThan_iff)
qed

section \<open>Max pooling\<close>

lemma nat_int_div_Suc: "nat (int a div int s + 1) = a div s + 1"
  by (simp add: zdiv_int[symmetric] nat_add_distrib)

lemma pool_windows:
  fixes x :: "'a tensor"
  assumes wf: "wf_tensor x" and shp: "shape x = [B, C, H, Wd]"
    and pos: "1 \<le> B" "1 \<le> C" "1 \<le> p" "1 \<le> s" "p \<le> H" "p \<le> Wd"
    and safe: "int64_safe x [1, 1, int s, int s]"
  shows "view_as_windows (IsTensor x) (Tup [1, 1, int p, int p]) (Tup [1, 1, int s, int s])
         = Inr (x\<lparr>shape := [B, C, (H - p) div s + 1, (Wd - p) div s + 1, 1, 1, p, p],
                  strides := map2 (\<lambda>sd s. sd * nat s) (strides x) [1, 1, int s, int s] @ strides x\<rparr>)"
proof -
  have f: "window_fits (shape x) (expand_arg (length (shape x)) (Tup [1, 1, int p, int p]))"
    using pos by (simp add: shp window_fits_def expand_arg_def)
  have l: "length (expand_arg (length (shape x)) (Tup [1, 1, int s, int s])) = length (shape x)"
    by (simp add: shp expand_arg_def)
  have b: "\<not> bad_step (Tup [1, 1, int s, int s])" using pos by (simp add: bad_step_def)
  have d: "nat ((int H - int p) div int s + 1) = (H - p) div s + 1"
    "nat ((int Wd - int p) div int s + 1) = (Wd - p) div s + 1"
    using pos nat_int_div_Suc[of "H - p" s] nat_int_div_Suc[of "Wd - p" s]
    by (simp_all add: of_nat_diff)
  have sf: "int64_safe x (expand_arg (length (shape x)) (Tup [1, 1, int s, int s]))"
    using safe by (simp add: expand_arg_def)
  show ?thesis
    using view_as_windows_safe[OF wf f b sf] d
    by (simp add: shp expand_arg_def positions_def)
qed


lemma pool_forward_value:
  fixes x :: "'a::linorder tensor"
  assumes wf: "wf_tensor x" and shp: "shape x = [B, C, H, Wd]"
    and pos: "1 \<le> B" "1 \<le> C" "1 \<le> p" "1 \<le> s" "p \<le> H" "p \<le> Wd"
    and safe: "int64_safe x [1, 1, int s, int s]"
  defines "oh \<equiv> (H - p) div s + 1" and "ow \<equiv> (Wd - p) div s + 1"
  defines "v \<equiv> x\<lparr>shape := [B, C, oh, ow, 1, 1, p, p],
                   strides := map2 (\<lambda>sd s. sd * nat s) (strides x) [1, 1, int s, int s] @ strides x\<rparr>"
  defines "w5 \<equiv> contiguous_of [B, C, oh, ow, p * p] (flat v)"
  shows "pool_forward \<lparr>stride = int s, pool_size = int p\<rparr> x =
           Inr (tabulate [B, C, oh, ow]
                  (\<lambda>idx. fold max (map (\<lambda>k. elem w5 (idx @ [k])) [1..<p * p]) (elem w5 (idx @ [0]))))"
proof -
  have lsx: "length (strides x) = 4" using wf shp by (simp add: wf_tensor_def)
  have vw: "view_as_windows (IsTensor x) (Tup [1, 1, int p, int p]) (Tup [1, 1, int s, int s]) = Inr v"
    unfolding v_def oh_def ow_def by (rule pool_windows[OF wf shp pos safe])
  have lv: "length (strides v) = length (shape v)" "length (shape v) = 8"
    using lsx by (simp_all add: v_def)
  from squeeze_props[of v 2] lv obtain t1 where t1: "squeeze v 2 = Inr t1" "flat t1 = flat v"
    "numel t1 = numel v" "length (strides t1) = length (shape t1)" "length (shape v) \<le> Suc (length (shape t1))"
    by auto
  from squeeze_props[of t1 2] t1 lv obtain t2 where t2: "squeeze t1 2 = Inr t2" "flat t2 = flat t1"
    "numel t2 = numel t1"
    by auto
  have nv: "numel v = B * C * oh * ow * (p * p)" by (simp add: v_def numel_def)
  have ih: "(int H - int p) div int s + 1 = int oh" "(int Wd - int p) div int s + 1 = int ow"
    using pos by (simp_all add: oh_def ow_def zdiv_int of_nat_diff)
  have "reshape t2 (map int [B, C, oh, ow, p * p]) = Inr (contiguous_of [B, C, oh, ow, p * p] (flat t2))"
    by (rule reshape_plain) (simp add: t2 t1 nv)
  then have rs: "reshape t2 [int B, int C, int oh, int ow, int p * int p] = Inr w5"
    by (simp add: w5_def t2 t1)
  have pp: "p * p \<noteq> 0" using pos by simp
  have ml: "max_last w5 = Inr (tabulate [B, C, oh, ow]
                  (\<lambda>idx. fold max (map (\<lambda>k. elem w5 (idx @ [k])) [1..<p * p]) (elem w5 (idx @ [0]))))"
    using pp by (simp add: max_last_def w5_def)
  have s0: "int s \<noteq> 0" using pos by simp
  show ?thesis
    using s0 by (simp add: pool_forward_def shp Let_def vw then_do_def t1 t2 ih rs ml)
qed


lemma pool_window_elem:
  fixes x :: "'a tensor" and s :: nat
  assumes lsx: "length (strides x) = 4" and shp: "shape x = [B, C, H, Wd]"
    and p: "0 < p"
    and idx: "n < B" "c < C" "i < oh" "j < ow" "k < p * p"
  defines "v \<equiv> x\<lparr>shape := [B, C, oh, ow, 1, 1, p, p],
                   strides := map2 (\<lambda>sd s. sd * nat s) (strides x) [1, 1, int s, int s] @ strides x\<rparr>"
  shows "elem (contiguous_of [B, C, oh, ow, p * p] (flat v)) [n, c, i, j, k]
         = elem x [n, c, i * s + k div p, j * s + k mod p]"
proof -
  let ?a = "k div p" and ?b = "k mod p"
  have a: "?a < p" using idx(5) p by (metis less_mult_imp_div_less)
  have b: "?b < p" using p by simp
  have val: "valid_index (shape v) [n, c, i, j, 0, 0, ?a, ?b]"
    using idx a b by (simp add: v_def valid_index_def)
  have k: "k = ?a * p + ?b" by simp
  have "dot_index [n, c, i, j, k] (contiguous_strides [B, C, oh, ow, p * p])
        = n * (C * (oh * (ow * (p * p)))) + c * (oh * (ow * (p * p))) + i * (ow * (p * p)) + j * (p * p) + k"
    by (simp add: dot_index_def)
  also have "\<dots> = n * (C * (oh * (ow * (p * p)))) + c * (oh * (ow * (p * p))) + i * (ow * (p * p)) + j * (p * p) + (?a * p + ?b)"
    by simp
  also have "\<dots> = dot_index [n, c, i, j, 0, 0, ?a, ?b] (contiguous_strides (shape v))"
    by (simp add: dot_index_def v_def)
  finally have d: "dot_index [n, c, i, j, k] (contiguous_strides [B, C, oh, ow, p * p])
        = dot_index [n, c, i, j, 0, 0, ?a, ?b] (contiguous_strides (shape v))" .
  have "elem (contiguous_of [B, C, oh, ow, p * p] (flat v)) [n, c, i, j, k]
        = flat v ! dot_index [n, c, i, j, 0, 0, ?a, ?b] (contiguous_strides (shape v))"
    by (simp only: elem_contiguous_of d)
  also have "\<dots> = elem v [n, c, i, j, 0, 0, ?a, ?b]"
    by (rule flat_nth[OF val])
  also have "\<dots> = elem v ([n, c, i, j] @ [0, 0, ?a, ?b])" by simp
  also have "\<dots> = elem x (src_index [1, 1, int s, int s] [n, c, i, j] [0, 0, ?a, ?b])"
    unfolding v_def by (rule window_view_elem) (simp_all add: lsx shp)
  also have "\<dots> = elem x [n, c, i * s + ?a, j * s + ?b]"
    by (simp add: src_index_def)
  finally show ?thesis .
qed


text \<open>
  Claim C6. For an input of shape \<open>(batch, channels, H, W)\<close>, a pool size between 1 and
  the spatial extents and a stride of at least 1 that keeps the sliced strides within
  int64, \<open>nn_max_pooling_layer.forward\<close> returns
  a tensor of spatial size \<open>(H - pool_size) // stride + 1\<close> per dimension, each element
  being the maximum of the \<open>pool_size\<close> by \<open>pool_size\<close> window of the input it covers,
  whether or not the stride divides the spatial size evenly. Max pooling \<open>[[1,2],[3,4]]\<close>
  with pool size 2 and stride 2 yields \<open>[[4]]\<close>.
\<close>

theorem pool_forward_max:
  fixes x :: "'a::linorder tensor"
  shows "(wf_tensor x \<and> shape x = [B, C, H, Wd] \<and> 1 \<le> B \<and> 1 \<le> C \<and>
      1 \<le> p \<and> 1 \<le> s \<and> p \<le> H \<and> p \<le> Wd \<and> int64_safe x [1, 1, int s, int s] \<longrightarrow>
      (\<exists>out. pool_forward \<lparr>stride = int s, pool_size = int p\<rparr> x = Inr out \<and>
         shape out = [B, C, (H - p) div s + 1, (Wd - p) div s + 1] \<and>
         (\<forall>n c i j. n < B \<and> c < C \<and> i < (H - p) div s + 1 \<and> j < (Wd - p) div s + 1 \<longrightarrow>
            elem out [n, c, i, j] = pool_ref p s x n c i j))) \<and>
    map_sum id tolist (pool_forward \<lparr>stride = 2, pool_size = 2\<rparr> ex22) =
      Inr (Nested [Nested [Nested [Nested [Scalar 4]]]])"
proof (intro conjI impI)
  assume a: "wf_tensor x \<and> shape x = [B, C, H, Wd] \<and> 1 \<le> B \<and> 1 \<le> C \<and>
      1 \<le> p \<and> 1 \<le> s \<and> p \<le> H \<and> p \<le> Wd \<and> int64_safe x [1, 1, int s, int s]"
  then have wf: "wf_tensor x" and shp: "shape x = [B, C, H, Wd]"
    and pos: "1 \<le> B" "1 \<le> C" "1 \<le> p" "1 \<le> s" "p \<le> H" "p \<le> Wd"
    and safe: "int64_safe x [1, 1, int s, int s]" by simp_all
  define oh where "oh = (H - p) div s + 1"
  define ow where "ow = (Wd - p) div s + 1"
  define v where "v = x\<lparr>shape := [B, C, oh, ow, 1, 1, p, p],
                   strides := map2 (\<lambda>sd s. sd * nat s) (strides x) [1, 1, int s, int s] @ strides x\<rparr>"
  define w5 where "w5 = contiguous_of [B, C, oh, ow, p * p] (flat v)"
  define out where "out = tabulate [B, C, oh, ow]
                  (\<lambda>idx. fold max (map (\<lambda>k. elem w5 (idx @ [k])) [1..<p * p]) (elem w5 (idx @ [0])))"
  have lsx: "length (strides x) = 4" using wf shp by (simp add: wf_tensor_def)
  have p0: "0 < p" using pos by simp
  have fw: "pool_forward \<lparr>stride = int s, pool_size = int p\<rparr> x = Inr out"
    unfolding out_def w5_def v_def oh_def ow_def by (rule pool_forward_value[OF wf shp pos safe])
  have el: "elem out [n, c, i, j] = pool_ref p s x n c i j"
    if "n < B \<and> c < C \<and> i < oh \<and> j < ow" for n c i j
  proof -
    from that have idx: "n < B" "c < C" "i < oh" "j < ow" by simp_all
    have w: "elem w5 [n, c, i, j, k] = elem x [n, c, i * s + k div p, j * s + k mod p]"
      if "k < p * p" for k
      unfolding w5_def v_def by (rule pool_window_elem[OF lsx shp p0 idx that])
    have "elem out [n, c, i, j]
          = fold max (map (\<lambda>k. elem w5 [n, c, i, j, k]) [1..<p * p]) (elem w5 [n, c, i, j, 0])"
      unfolding out_def using idx by (subst elem_tabulate) (simp_all add: valid_index_def)
    also have "\<dots> = Max (set (elem w5 [n, c, i, j, 0] # map (\<lambda>k. elem w5 [n, c, i, j, k]) [1..<p * p]))"
      by (rule fold_max_Max)
    also have "set (elem w5 [n, c, i, j, 0] # map (\<lambda>k. elem w5 [n, c, i, j, k]) [1..<p * p])
               = (\<lambda>k. elem w5 [n, c, i, j, k]) ` {..<p * p}"
    proof -
      have "{..<p * p} = insert 0 {1..<p * p}" using p0 by auto
      then show ?thesis by simp
    qed
    also have "(\<lambda>k. elem w5 [n, c, i, j, k]) ` {..<p * p}
               = (\<lambda>k. elem x [n, c, i * s + k div p, j * s + k mod p]) ` {..<p * p}"
      by (rule image_cong[OF refl]) (simp add: w)
    also have "\<dots> = (\<lambda>(a, b). elem x [n, c, i * s + a, j * s + b]) ` ({..<p} \<times> {..<p})"
      by (rule image_lessThan_prod[OF p0, of "\<lambda>a b. elem x [n, c, i * s + a, j * s + b]"])
    finally show ?thesis by (simp add: pool_ref_def)
  qed
  show "\<exists>out. pool_forward \<lparr>stride = int s, pool_size = int p\<rparr> x = Inr out \<and>
         shape out = [B, C, (H - p) div s + 1, (Wd - p) div s + 1] \<and>
         (\<forall>n c i j. n < B \<and> c < C \<and> i < (H - p) div s + 1 \<and> j < (Wd - p) div s + 1 \<longrightarrow>
            elem out [n, c, i, j] = pool_ref p s x n c i j)"
    by (rule exI[of _ out]) (use fw el in \<open>simp add: out_def oh_def ow_def\<close>)
next
  show "map_sum id tolist (pool_forward \<lparr>stride = 2, pool_size = 2\<rparr> ex22) =
      Inr (Nested [Nested [Nested [Nested [Scalar 4]]]])"
    by code_simp
qed

lemma pool_ref_ex22: "pool_ref 2 2 ex22 0 0 0 0 = 4"
proof -
  have "{..<2::nat} = {0, 1}" by auto
  then show ?thesis by (simp add: pool_ref_def ex22_def elem_def dot_index_def)
qed


theorem pool_forward_max_witness:
  "wf_tensor ex22 \<and> shape ex22 = [1, 1, 2, 2] \<and> int64_safe ex22 [1, 1, 2, 2] \<and>
   (\<exists>out. pool_forward \<lparr>stride = 2, pool_size = 2\<rparr> ex22 = Inr out \<and>
      shape out = [1, 1, 1, 1] \<and> elem out [0, 0, 0, 0] = pool_ref 2 2 ex22 0 0 0 0 \<and>
      pool_ref 2 2 ex22 0 0 0 0 = 4)"
proof -
  have wf: "wf_tensor ex22" by code_simp
  have sh: "shape ex22 = [1, 1, 2, 2]" by (simp add: ex22_def)
  have sf: "int64_safe ex22 [1, 1, 2, 2]" by code_simp
  from pool_forward_max[of ex22 1 1 2 2 2 2] wf sh sf
  obtain out where o: "pool_forward \<lparr>stride = 2, pool_size = 2\<rparr> ex22 = Inr out"
    "shape out = [1, 1, 1, 1]"
    "\<forall>n c i j. n < 1 \<and> c < 1 \<and> i < 1 \<and> j < 1 \<longrightarrow> elem out [n, c, i, j] = pool_ref 2 2 ex22 n c i j"
    by auto
  from o(3) have "elem out [0, 0, 0, 0] = pool_ref 2 2 ex22 0 0 0 0" by simp
  with wf sh sf o pool_ref_ex22 show ?thesis by auto
qed

section \<open>Convolution\<close>

lemma elem_reshape:
  assumes "valid_index (shape t) idx"
    and "dot_index idx' (contiguous_strides s) = dot_index idx (contiguous_strides (shape t))"
  shows "elem (contiguous_of s (flat t)) idx' = elem t idx"
  using flat_nth[OF assms(1)] assms(2) by (simp add: elem_contiguous_of)

lemma sum_lessThan_mult:
  fixes g :: "nat \<Rightarrow> 'a::comm_monoid_add"
  shows "(\<Sum>k<a * b. g k) = (\<Sum>i<a. \<Sum>j<b. g (i * b + j))"
proof -
  have "(\<Sum>i<a. \<Sum>j<b. g (i * b + j)) = (\<Sum>i<a. sum g {i * b..<i * b + b})"
  proof (rule sum.cong[OF refl])
    fix i
    have "sum g {0 + i * b..<b + i * b} = (\<Sum>j = 0..<b. g (j + i * b))"
      by (rule sum.shift_bounds_nat_ivl)
    then show "(\<Sum>j<b. g (i * b + j)) = sum g {i * b..<i * b + b}"
      by (simp add: add.commute atLeast0LessThan)
  qed
  also have "\<dots> = sum g {..<a * b}" by (rule sum.nat_group)
  finally show ?thesis by simp
qed

lemma conv_windows:
  fixes x :: "'a tensor"
  assumes wf: "wf_tensor x" and shp: "shape x = [B, C, H, Wd]"
    and pos: "1 \<le> B" "1 \<le> C" "1 \<le> fh" "1 \<le> fw" "fh \<le> H" "fw \<le> Wd"
  shows "view_as_windows (IsTensor x) (Tup [1, 1, int fh, int fw]) (Num 1)
         = Inr (x\<lparr>shape := [B, C, H - fh + 1, Wd - fw + 1, 1, 1, fh, fw],
                  strides := map2 (\<lambda>sd s. sd * nat s) (strides x) [1, 1, 1, 1] @ strides x\<rparr>)"
proof -
  have f: "window_fits (shape x) (expand_arg (length (shape x)) (Tup [1, 1, int fh, int fw]))"
    using pos by (simp add: shp window_fits_def expand_arg_def)
  have l: "length (expand_arg (length (shape x)) (Num 1)) = length (shape x)"
    by (simp add: shp expand_arg_def)
  have b: "\<not> bad_step (Num 1)" by (simp add: bad_step_def)
  have e: "expand_arg 4 (Num 1) = [1, 1, 1, 1]"
    by (simp add: expand_arg_def numeral_eq_Suc)
  have d: "nat (int H - int fh + 1) = H - fh + 1" "nat (int Wd - int fw + 1) = Wd - fw + 1"
    using pos by simp_all
  have s64: "\<forall>k<length (shape x). expand_arg (length (shape x)) (Num 1) ! k < 2 ^ 63"
    by (simp add: expand_arg_def)
  have pr: "\<forall>k<length (shape x). int (strides x ! k) * expand_arg (length (shape x)) (Num 1) ! k
              < 2 ^ 63" if "int64_tensor x"
  proof (intro allI impI)
    fix k assume k: "k < length (shape x)"
    have ls: "length (strides x) = length (shape x)" using wf by (simp add: wf_tensor_def)
    have "int (strides x ! k) < 2 ^ 63"
      using that k ls by (simp add: int64_tensor_def int64_ok_def list_all_length)
    moreover have "expand_arg (length (shape x)) (Num 1) ! k = 1"
      using k by (simp add: expand_arg_def)
    ultimately show "int (strides x ! k) * expand_arg (length (shape x)) (Num 1) ! k < 2 ^ 63"
      by simp
  qed
  show ?thesis
    using view_as_windows_ok[OF wf f l b s64 pr] d
    by (simp add: shp e positions_def) (simp add: expand_arg_def)
qed

lemma permute_ok:
  "length dims = length (shape t) \<Longrightarrow> distinct dims \<Longrightarrow> \<forall>d\<in>set dims. d < length (shape t) \<Longrightarrow>
   permute t dims = Inr (t\<lparr>shape := map (\<lambda>d. shape t ! d) dims, strides := map (\<lambda>d. strides t ! d) dims\<rparr>)"
  by (auto simp: permute_def list_ex_iff)

lemma conv_forward_value:
  fixes x :: "'a::semiring_0 tensor"
  assumes wf: "wf_tensor x" and shp: "shape x = [B, C, H, Wd]"
    and shpW: "shape Wt = [O', C, fh, fw]"
    and pos: "1 \<le> B" "1 \<le> C" "1 \<le> fh" "1 \<le> fw" "fh \<le> H" "fw \<le> Wd" and O: "1 \<le> O'"
  defines "oh \<equiv> H - fh + 1" and "ow \<equiv> Wd - fw + 1"
  defines "v \<equiv> x\<lparr>shape := [B, C, oh, ow, 1, 1, fh, fw],
                   strides := map2 (\<lambda>sd s. sd * nat s) (strides x) [1, 1, 1, 1] @ strides x\<rparr>"
  defines "x_col4 \<equiv> contiguous_of [B, C, oh * ow, fh * fw] (flat v)"
  defines "x_perm \<equiv> x_col4\<lparr>shape := [B, oh * ow, C, fh * fw],
                             strides := map (\<lambda>d. strides x_col4 ! d) [0, 2, 1, 3]\<rparr>"
  defines "x_col \<equiv> contiguous_of [B * oh * ow, C * fh * fw] (flat x_perm)"
  defines "W_col \<equiv> contiguous_of [O', C * fh * fw] (flat Wt)"
  defines "W_col_t \<equiv> W_col\<lparr>shape := [C * fh * fw, O'], strides := map (\<lambda>d. strides W_col ! d) [1, 0]\<rparr>"
  defines "mout \<equiv> tabulate [B * oh * ow, O']
                     (\<lambda>idx. \<Sum>k\<leftarrow>[0..<C * fh * fw]. elem x_col [idx ! 0, k] * elem W_col_t [k, idx ! 1])"
  defines "out_r \<equiv> contiguous_of [B, oh, ow, O'] (flat mout)"
  defines "out_p \<equiv> out_r\<lparr>shape := [B, O', oh, ow], strides := map (\<lambda>d. strides out_r ! d) [0, 3, 1, 2]\<rparr>"
  shows "conv_forward \<lparr>weight_W = Wt, bias_b = bt, input_size = isz\<rparr> x = tensor_add out_p bt"
proof -
  have lsx: "length (strides x) = 4" using wf shp by (simp add: wf_tensor_def)
  have vw: "view_as_windows (IsTensor x) (Tup [1, 1, int fh, int fw]) (Num 1) = Inr v"
    unfolding v_def oh_def ow_def by (rule conv_windows[OF wf shp pos])
  have lv: "length (strides v) = length (shape v)" "length (shape v) = 8"
    using lsx by (simp_all add: v_def)
  from squeeze_props[of v 2] lv obtain t1 where t1: "squeeze v 2 = Inr t1" "flat t1 = flat v"
    "numel t1 = numel v" "length (strides t1) = length (shape t1)" "length (shape v) \<le> Suc (length (shape t1))"
    by auto
  from squeeze_props[of t1 2] t1 lv obtain t2 where t2: "squeeze t1 2 = Inr t2" "flat t2 = flat t1"
    "numel t2 = numel t1"
    by auto
  have ih: "int H - int fh + 1 = int oh" "int Wd - int fw + 1 = int ow"
    using pos by (simp_all add: oh_def ow_def)
  have nv: "numel v = B * (C * (oh * ow * (fh * fw)))" by (simp add: v_def numel_def)
  have "reshape t2 (map int [B, C, oh * ow, fh * fw]) = Inr (contiguous_of [B, C, oh * ow, fh * fw] (flat t2))"
    by (rule reshape_plain) (simp add: t2 t1 nv)
  then have r1: "reshape t2 [int B, int C, int oh * int ow, int fh * int fw] = Inr x_col4"
    by (simp add: x_col4_def t2 t1)
  have p1: "permute x_col4 [0, 2, 1, 3] = Inr x_perm"
    unfolding x_perm_def by (subst permute_ok) (simp_all add: x_col4_def)
  have "reshape x_perm (map int [B * oh * ow, C * fh * fw]) = Inr (contiguous_of [B * oh * ow, C * fh * fw] (flat x_perm))"
    by (rule reshape_plain) (simp add: x_perm_def numel_def)
  then have r2: "reshape x_perm [int B * int oh * int ow, int C * int fh * int fw] = Inr x_col"
    by (simp add: x_col_def)
  have r3: "reshape Wt [int O', - 1] = Inr W_col"
    unfolding W_col_def using O by (intro reshape_infer_last) (simp_all add: numel_def shpW)
  have tr: "transpose_t W_col = Inr W_col_t"
    unfolding W_col_t_def transpose_t_def by (simp add: W_col_def permute_ok)
  have m: "mm x_col W_col_t = Inr mout"
    by (simp add: mm_def mout_def x_col_def W_col_t_def)
  have "reshape mout (map int [B, oh, ow, O']) = Inr (contiguous_of [B, oh, ow, O'] (flat mout))"
    by (rule reshape_plain) (simp add: mout_def numel_def)
  then have r4: "reshape mout [int B, int oh, int ow, int O'] = Inr out_r"
    by (simp add: out_r_def)
  have p2: "permute out_r [0, 3, 1, 2] = Inr out_p"
    unfolding out_p_def by (subst permute_ok) (simp_all add: out_r_def)
  show ?thesis
    unfolding conv_forward_def
    by (simp only: shp shpW list.case Let_def vw then_do_def sum.case t1 t2 ih r1 p1 r2 r3 tr m
        r4 p2 nn_convolutional_layer.select_convs)
qed

lemma mult_add_less:
  fixes a b :: nat
  assumes "a < A" "b < Bn"
  shows "a * Bn + b < A * Bn"
proof -
  have "a * Bn + b < a * Bn + Bn" using assms by simp
  also have "\<dots> = Suc a * Bn" by simp
  also have "\<dots> \<le> A * Bn" using assms(1) by (intro mult_le_mono1) simp
  finally show ?thesis .
qed

lemma sum_list_upt: "(\<Sum>k\<leftarrow>[0..<n]. f k) = (\<Sum>k<n. f k)"
  by (simp add: interv_sum_list_conv_sum_set_nat atLeast0LessThan)

lemma conv_x_col_elem:
  fixes x :: "'a tensor"
  assumes lsx: "length (strides x) = 4" and shp: "shape x = [B, C, H, Wd]"
    and idx: "n < B" "i < oh" "j < ow" "c < C" "p < fh" "q < fw"
  defines "v \<equiv> x\<lparr>shape := [B, C, oh, ow, 1, 1, fh, fw],
                   strides := map2 (\<lambda>sd s. sd * nat s) (strides x) [1, 1, 1, 1] @ strides x\<rparr>"
  defines "x_col4 \<equiv> contiguous_of [B, C, oh * ow, fh * fw] (flat v)"
  defines "x_perm \<equiv> x_col4\<lparr>shape := [B, oh * ow, C, fh * fw],
                             strides := map (\<lambda>d. strides x_col4 ! d) [0, 2, 1, 3]\<rparr>"
  defines "x_col \<equiv> contiguous_of [B * oh * ow, C * fh * fw] (flat x_perm)"
  shows "elem x_col [(n * oh + i) * ow + j, (c * fh + p) * fw + q] = elem x [n, c, i + p, j + q]"
proof -
  let ?pos = "i * ow + j" and ?pq = "p * fw + q"
  have b1: "?pos < oh * ow" by (rule mult_add_less[OF idx(2) idx(3)])
  have b2: "?pq < fh * fw" by (rule mult_add_less[OF idx(5) idx(6)])
  have v1: "valid_index (shape x_perm) [n, ?pos, c, ?pq]"
    using idx b1 b2 by (simp add: x_perm_def valid_index_def)
  have d1: "dot_index [(n * oh + i) * ow + j, (c * fh + p) * fw + q]
              (contiguous_strides [B * oh * ow, C * fh * fw])
            = dot_index [n, ?pos, c, ?pq] (contiguous_strides (shape x_perm))"
    by (simp add: dot_index_def x_perm_def algebra_simps)
  have e1: "elem x_col [(n * oh + i) * ow + j, (c * fh + p) * fw + q] = elem x_perm [n, ?pos, c, ?pq]"
    unfolding x_col_def by (rule elem_reshape[OF v1 d1])
  have e2: "elem x_perm [n, ?pos, c, ?pq] = elem x_col4 [n, c, ?pos, ?pq]"
    by (simp add: x_perm_def x_col4_def contiguous_of_def elem_def dot_index_def algebra_simps)
  have v3: "valid_index (shape v) [n, c, i, j, 0, 0, p, q]"
    using idx by (simp add: v_def valid_index_def)
  have d3: "dot_index [n, c, ?pos, ?pq] (contiguous_strides [B, C, oh * ow, fh * fw])
            = dot_index [n, c, i, j, 0, 0, p, q] (contiguous_strides (shape v))"
    by (simp add: dot_index_def v_def algebra_simps)
  have e3: "elem x_col4 [n, c, ?pos, ?pq] = elem v [n, c, i, j, 0, 0, p, q]"
    unfolding x_col4_def by (rule elem_reshape[OF v3 d3])
  have "elem v ([n, c, i, j] @ [0, 0, p, q]) = elem x (src_index [1, 1, 1, 1] [n, c, i, j] [0, 0, p, q])"
    unfolding v_def by (rule window_view_elem) (simp_all add: lsx shp)
  then have e4: "elem v [n, c, i, j, 0, 0, p, q] = elem x [n, c, i + p, j + q]"
    by (simp add: src_index_def)
  show ?thesis using e1 e2 e3 e4 by simp
qed

lemma conv_W_col_elem:
  fixes Wt :: "'a tensor"
  assumes shpW: "shape Wt = [O', C, fh, fw]"
    and idx: "o' < O'" "c < C" "p < fh" "q < fw"
  defines "W_col \<equiv> contiguous_of [O', C * fh * fw] (flat Wt)"
  defines "W_col_t \<equiv> W_col\<lparr>shape := [C * fh * fw, O'], strides := map (\<lambda>d. strides W_col ! d) [1, 0]\<rparr>"
  shows "elem W_col_t [(c * fh + p) * fw + q, o'] = elem Wt [o', c, p, q]"
proof -
  have e1: "elem W_col_t [(c * fh + p) * fw + q, o'] = elem W_col [o', (c * fh + p) * fw + q]"
    by (simp add: W_col_t_def W_col_def contiguous_of_def elem_def dot_index_def algebra_simps)
  have v: "valid_index (shape Wt) [o', c, p, q]" using idx by (simp add: shpW valid_index_def)
  have d: "dot_index [o', (c * fh + p) * fw + q] (contiguous_strides [O', C * fh * fw])
           = dot_index [o', c, p, q] (contiguous_strides (shape Wt))"
    by (simp add: dot_index_def shpW algebra_simps)
  have "elem W_col [o', (c * fh + p) * fw + q] = elem Wt [o', c, p, q]"
    unfolding W_col_def by (rule elem_reshape[OF v d])
  with e1 show ?thesis by simp
qed

lemma broadcast_bias:
  "broadcast_shapes [B, O', oh, ow] [1, O', 1, 1] = Inr [B, O', oh, ow]"
  by (simp add: broadcast_shapes_def then_do_def)

text \<open>
  Claim C5. For an input of shape \<open>(batch, in_ch, H, W)\<close>, a weight of shape
  \<open>(out_ch, in_ch, f_h, f_w)\<close> with \<open>1 \<le> f_h \<le> H\<close> and \<open>1 \<le> f_w \<le> W\<close>, and a bias of shape
  \<open>(1, out_ch, 1, 1)\<close>, \<open>nn_convolutional_layer.forward\<close> (window view, reshapes and one
  matrix product) returns a tensor of shape \<open>(batch, out_ch, H - f_h + 1, W - f_w + 1)\<close>
  that equals, element by element and over exact arithmetic, the valid, unpadded,
  stride-1 cross-correlation (no kernel flip) plus the broadcast bias.
\<close>

theorem conv_forward_cross_correlation:
  fixes x :: "'a::semiring_0 tensor"
  shows "wf_tensor x \<and> shape x = [B, C, H, Wd] \<and> shape Wt = [O', C, fh, fw] \<and>
     shape bt = [1, O', 1, 1] \<and> 1 \<le> B \<and> 1 \<le> C \<and> 1 \<le> O' \<and>
     1 \<le> fh \<and> 1 \<le> fw \<and> fh \<le> H \<and> fw \<le> Wd \<longrightarrow>
     (\<exists>out. conv_forward \<lparr>weight_W = Wt, bias_b = bt, input_size = isz\<rparr> x = Inr out \<and>
        shape out = [B, O', H - fh + 1, Wd - fw + 1] \<and>
        (\<forall>n o' i j. n < B \<and> o' < O' \<and> i < H - fh + 1 \<and> j < Wd - fw + 1 \<longrightarrow>
           elem out [n, o', i, j] = conv_ref x Wt bt n o' i j))"
proof
  assume a: "wf_tensor x \<and> shape x = [B, C, H, Wd] \<and> shape Wt = [O', C, fh, fw] \<and>
     shape bt = [1, O', 1, 1] \<and> 1 \<le> B \<and> 1 \<le> C \<and> 1 \<le> O' \<and>
     1 \<le> fh \<and> 1 \<le> fw \<and> fh \<le> H \<and> fw \<le> Wd"
  then have wf: "wf_tensor x" and shp: "shape x = [B, C, H, Wd]"
    and shpW: "shape Wt = [O', C, fh, fw]" and shpb: "shape bt = [1, O', 1, 1]"
    and pos: "1 \<le> B" "1 \<le> C" "1 \<le> fh" "1 \<le> fw" "fh \<le> H" "fw \<le> Wd" and O: "1 \<le> O'"
    by simp_all
  define oh where "oh = H - fh + 1"
  define ow where "ow = Wd - fw + 1"
  define v where "v = x\<lparr>shape := [B, C, oh, ow, 1, 1, fh, fw],
                   strides := map2 (\<lambda>sd s. sd * nat s) (strides x) [1, 1, 1, 1] @ strides x\<rparr>"
  define x_col4 where "x_col4 = contiguous_of [B, C, oh * ow, fh * fw] (flat v)"
  define x_perm where "x_perm = x_col4\<lparr>shape := [B, oh * ow, C, fh * fw],
                             strides := map (\<lambda>d. strides x_col4 ! d) [0, 2, 1, 3]\<rparr>"
  define x_col where "x_col = contiguous_of [B * oh * ow, C * fh * fw] (flat x_perm)"
  define W_col where "W_col = contiguous_of [O', C * fh * fw] (flat Wt)"
  define W_col_t where "W_col_t = W_col\<lparr>shape := [C * fh * fw, O'], strides := map (\<lambda>d. strides W_col ! d) [1, 0]\<rparr>"
  define mout where "mout = tabulate [B * oh * ow, O']
                     (\<lambda>idx. \<Sum>k\<leftarrow>[0..<C * fh * fw]. elem x_col [idx ! 0, k] * elem W_col_t [k, idx ! 1])"
  define out_r where "out_r = contiguous_of [B, oh, ow, O'] (flat mout)"
  define out_p where "out_p = out_r\<lparr>shape := [B, O', oh, ow], strides := map (\<lambda>d. strides out_r ! d) [0, 3, 1, 2]\<rparr>"
  define out where "out = tabulate [B, O', oh, ow]
      (\<lambda>idx. elem out_p (bidx [B, O', oh, ow] idx) + elem bt (bidx [1, O', 1, 1] idx))"
  have lsx: "length (strides x) = 4" using wf shp by (simp add: wf_tensor_def)
  have fw: "conv_forward \<lparr>weight_W = Wt, bias_b = bt, input_size = isz\<rparr> x = tensor_add out_p bt"
    unfolding out_p_def out_r_def mout_def W_col_t_def W_col_def x_col_def x_perm_def x_col4_def
      v_def oh_def ow_def
    by (rule conv_forward_value[OF wf shp shpW pos O])
  have ta: "tensor_add out_p bt = Inr out"
    using broadcast_bias[of B O' oh ow]
    by (simp add: tensor_add_def out_p_def shpb then_do_def out_def)
  have el: "elem out [n, o', i, j] = conv_ref x Wt bt n o' i j"
    if "n < B \<and> o' < O' \<and> i < oh \<and> j < ow" for n o' i j
  proof -
    from that have idx: "n < B" "o' < O'" "i < oh" "j < ow" by simp_all
    let ?r = "(n * oh + i) * ow + j"
    have r: "?r < B * oh * ow"
      by (intro mult_add_less idx)
    have b1: "bidx [B, O', oh, ow] [n, o', i, j] = [n, o', i, j]"
      using idx by (auto simp: bidx_def)
    have b2: "bidx [1, O', 1, 1] [n, o', i, j] = [0, o', 0, 0]"
      using idx by (auto simp: bidx_def)
    have e0: "elem out [n, o', i, j] = elem out_p [n, o', i, j] + elem bt [0, o', 0, 0]"
      unfolding out_def using idx b1 b2 by (subst elem_tabulate) (simp_all add: valid_index_def)
    have e1: "elem out_p [n, o', i, j] = elem out_r [n, i, j, o']"
      by (simp add: out_p_def out_r_def contiguous_of_def elem_def dot_index_def algebra_simps)
    have vm: "valid_index (shape mout) [?r, o']"
      using r idx by (simp add: mout_def valid_index_def)
    have dm: "dot_index [n, i, j, o'] (contiguous_strides [B, oh, ow, O'])
              = dot_index [?r, o'] (contiguous_strides (shape mout))"
      by (simp add: dot_index_def mout_def algebra_simps)
    have e2: "elem out_r [n, i, j, o'] = elem mout [?r, o']"
      unfolding out_r_def by (rule elem_reshape[OF vm dm])
    have e3: "elem mout [?r, o'] = (\<Sum>k<C * fh * fw. elem x_col [?r, k] * elem W_col_t [k, o'])"
      unfolding mout_def using vm
      by (subst elem_tabulate) (simp_all add: mout_def sum_list_upt)
    have "(\<Sum>k<C * fh * fw. elem x_col [?r, k] * elem W_col_t [k, o'])
          = (\<Sum>m<C * fh. \<Sum>q<fw. elem x_col [?r, m * fw + q] * elem W_col_t [m * fw + q, o'])"
      by (rule sum_lessThan_mult)
    also have "\<dots> = (\<Sum>c<C. \<Sum>p<fh. \<Sum>q<fw.
                 elem x_col [?r, (c * fh + p) * fw + q] * elem W_col_t [(c * fh + p) * fw + q, o'])"
      by (rule sum_lessThan_mult)
    also have "\<dots> = (\<Sum>c<C. \<Sum>p<fh. \<Sum>q<fw. elem x [n, c, i + p, j + q] * elem Wt [o', c, p, q])"
    proof (intro sum.cong refl)
      fix c p q assume "c \<in> {..<C}" "p \<in> {..<fh}" "q \<in> {..<fw}"
      then have cpq: "c < C" "p < fh" "q < fw" by simp_all
      have xe: "elem x_col [?r, (c * fh + p) * fw + q] = elem x [n, c, i + p, j + q]"
        unfolding x_col_def x_perm_def x_col4_def v_def
        by (rule conv_x_col_elem[OF lsx shp idx(1) idx(3) idx(4) cpq])
      have we: "elem W_col_t [(c * fh + p) * fw + q, o'] = elem Wt [o', c, p, q]"
        unfolding W_col_t_def W_col_def by (rule conv_W_col_elem[OF shpW idx(2) cpq])
      show "elem x_col [?r, (c * fh + p) * fw + q] * elem W_col_t [(c * fh + p) * fw + q, o']
            = elem x [n, c, i + p, j + q] * elem Wt [o', c, p, q]"
        by (simp only: xe we)
    qed
    finally have e4: "(\<Sum>k<C * fh * fw. elem x_col [?r, k] * elem W_col_t [k, o'])
          = (\<Sum>c<C. \<Sum>p<fh. \<Sum>q<fw. elem x [n, c, i + p, j + q] * elem Wt [o', c, p, q])" .
    show ?thesis
      unfolding e0 e1 e2 e3 e4 by (simp add: conv_ref_def shp shpW)
  qed
  show "\<exists>out. conv_forward \<lparr>weight_W = Wt, bias_b = bt, input_size = isz\<rparr> x = Inr out \<and>
        shape out = [B, O', H - fh + 1, Wd - fw + 1] \<and>
        (\<forall>n o' i j. n < B \<and> o' < O' \<and> i < H - fh + 1 \<and> j < Wd - fw + 1 \<longrightarrow>
           elem out [n, o', i, j] = conv_ref x Wt bt n o' i j)"
    by (rule exI[of _ out]) (use fw ta el in \<open>simp add: out_def oh_def ow_def\<close>)
qed

lemma conv_ref_ex: "conv_ref ex22 exW exb 0 0 0 0 = 15"
proof -
  have "{..<2::nat} = {0, 1}" by auto
  then show ?thesis
    by (simp add: conv_ref_def ex22_def exW_def exb_def elem_def dot_index_def)
qed

theorem conv_forward_cross_correlation_witness:
  "wf_tensor ex22 \<and> shape ex22 = [1, 1, 2, 2] \<and> shape exW = [1, 1, 2, 2] \<and>
   shape exb = [1, 1, 1, 1] \<and>
   (\<exists>out. conv_forward \<lparr>weight_W = exW, bias_b = exb, input_size = 2\<rparr> ex22 = Inr out \<and>
      shape out = [1, 1, 1, 1] \<and> elem out [0, 0, 0, 0] = conv_ref ex22 exW exb 0 0 0 0 \<and>
      conv_ref ex22 exW exb 0 0 0 0 = 15)"
proof -
  have wf: "wf_tensor ex22" by code_simp
  have sh: "shape ex22 = [1, 1, 2, 2]" "shape exW = [1, 1, 2, 2]" "shape exb = [1, 1, 1, 1]"
    by (simp_all add: ex22_def exW_def exb_def)
  from conv_forward_cross_correlation[of ex22 1 1 2 2 exW 1 2 2 exb 2] wf sh
  obtain out where o: "conv_forward \<lparr>weight_W = exW, bias_b = exb, input_size = 2\<rparr> ex22 = Inr out"
    "shape out = [1, 1, 1, 1]"
    "\<forall>n o' i j. n < 1 \<and> o' < 1 \<and> i < 1 \<and> j < 1 \<longrightarrow>
        elem out [n, o', i, j] = conv_ref ex22 exW exb n o' i j"
    by auto
  from o(3) have "elem out [0, 0, 0, 0] = conv_ref ex22 exW exb 0 0 0 0" by simp
  with wf sh o conv_ref_ex show ?thesis by auto
qed

section \<open>Parameters are copied, never aliased\<close>

lemma flat_contiguous_of_flat:
  "flat (contiguous_of (shape t) (flat t)) = flat t"
proof -
  let ?c = "contiguous_of (shape t) (flat t)"
  have e: "elem ?c idx = elem t idx" if "idx \<in> set (all_indices (shape t))" for idx
    using that by (intro elem_reshape all_indices_valid) simp_all
  have "flat ?c = map (elem ?c) (all_indices (shape t))"
    by (simp only: flat_def[of ?c] shape_contiguous_of)
  also have "\<dots> = map (elem t) (all_indices (shape t))"
    by (rule map_cong[OF refl]) (rule e)
  also have "\<dots> = flat t" by (simp only: flat_def)
  finally show ?thesis .
qed

lemma deref_append: "allocated h r \<Longrightarrow> deref (h @ hs) r = deref h r"
  by (simp add: deref_def allocated_def nth_append)

lemma deref_update_other: "addr r \<noteq> k \<Longrightarrow> deref (h[k := xs]) r = deref h r"
  by (simp add: deref_def)

lemma clone_copy:
  "clone h r = (h', r') \<Longrightarrow>
   h' = h @ [flat (deref h r)] \<and> addr r' = length h \<and> flat (deref h' r') = flat (deref h r)"
proof -
  assume c: "clone h r = (h', r')"
  then have h': "h' = h @ [flat (deref h r)]" and r': "r' = \<lparr>addr = length h, roffset = 0, rshape = rshape r, rstrides = contiguous_strides (rshape r)\<rparr>"
    by (simp_all add: clone_def)
  have "deref h' r' = contiguous_of (shape (deref h r)) (flat (deref h r))"
    by (simp add: h' r' deref_def contiguous_of_def)
  then show ?thesis using h' r' by (simp add: flat_contiguous_of_flat)
qed

lemma inplace_add_other:
  "k \<noteq> addr a \<Longrightarrow> fst (inplace_add h a d) ! k = h ! k"
  by (simp add: inplace_add_def)

lemma inplace_add_length: "length (fst (inplace_add h a d)) = length h"
  by (simp add: inplace_add_def)

lemma update_weights_other:
  "k \<noteq> addr (W_param self) \<Longrightarrow> k \<noteq> addr (b_param self) \<Longrightarrow>
   fst (update_weights h self dW db) ! k = h ! k"
proof -
  assume k: "k \<noteq> addr (W_param self)" "k \<noteq> addr (b_param self)"
  obtain h1 e where i1: "inplace_add h (W_param self) dW = (h1, e)" by (cases "inplace_add h (W_param self) dW")
  have h1: "h1 ! k = h ! k" using inplace_add_other[OF k(1), of h dW] i1 by simp
  show ?thesis
  proof (cases e)
    case None
    then show ?thesis using i1 h1 inplace_add_other[OF k(2), of h1 db]
      by (simp add: update_weights_def)
  next
    case (Some err)
    then show ?thesis using i1 h1 by (simp add: update_weights_def)
  qed
qed

lemma update_weights_deref:
  "addr r \<noteq> addr (W_param self) \<Longrightarrow> addr r \<noteq> addr (b_param self) \<Longrightarrow>
   deref (fst (update_weights h self dW db)) r = deref h r"
  using update_weights_other[of "addr r" self h dW db] by (simp add: deref_def)

lemma clone_value:
  "clone h r = (h', r') \<Longrightarrow> flat (deref h' r') = flat (deref h r)"
  using clone_copy by blast

lemma clone_fresh:
  assumes "clone h r = (h', r')"
  shows "allocated h' r'" and "length h' = Suc (length h)"
    and "allocated h r0 \<Longrightarrow> deref h' r0 = deref h r0"
    and "allocated h r0 \<Longrightarrow> addr r0 \<noteq> addr r'"
    and "allocated h r0 \<Longrightarrow> allocated h' r0"
  using clone_copy[OF assms] by (auto simp: allocated_def deref_append)

text \<open>
  Claim C9. \<open>get_weights\<close> returns copies of \<open>W\<close> and \<open>b\<close> in storages of their own, and
  \<open>set_weights\<close> stores such copies of its arguments. The copies hold the same elements.
  After either call, overwriting the storage of a tensor the caller holds leaves the
  tensors of the layer as they were, and \<open>update_weights\<close> on the layer, whatever its
  operands and whether or not it raises, leaves the tensors the caller holds as they
  were: no aliasing in either direction.
\<close>

theorem weights_no_aliasing:
  fixes h :: "'a::plus heap"
  shows "allocated h (W_param self) \<and> allocated h (b_param self) \<and>
     allocated h Wn \<and> allocated h bn \<longrightarrow>
    (\<exists>h' w b. get_weights h self = (h', w, b) \<and>
        flat (deref h' w) = flat (deref h (W_param self)) \<and>
        flat (deref h' b) = flat (deref h (b_param self)) \<and>
        (\<forall>k data. k \<in> {addr w, addr b} \<longrightarrow>
             deref (h'[k := data]) (W_param self) = deref h (W_param self) \<and>
             deref (h'[k := data]) (b_param self) = deref h (b_param self)) \<and>
        (\<forall>dW db. deref (fst (update_weights h' self dW db)) w = deref h' w \<and>
                 deref (fst (update_weights h' self dW db)) b = deref h' b)) \<and>
    (\<exists>h' self'. set_weights h self Wn bn = (h', self') \<and>
        flat (deref h' (W_param self')) = flat (deref h Wn) \<and>
        flat (deref h' (b_param self')) = flat (deref h bn) \<and>
        (\<forall>k data. k \<in> {addr Wn, addr bn} \<longrightarrow>
             deref (h'[k := data]) (W_param self') = deref h' (W_param self') \<and>
             deref (h'[k := data]) (b_param self') = deref h' (b_param self')) \<and>
        (\<forall>dW db. deref (fst (update_weights h' self' dW db)) Wn = deref h Wn \<and>
                 deref (fst (update_weights h' self' dW db)) bn = deref h bn))"
proof (intro impI conjI)
  assume a: "allocated h (W_param self) \<and> allocated h (b_param self) \<and>
     allocated h Wn \<and> allocated h bn"
  then have aW: "allocated h (W_param self)" and ab: "allocated h (b_param self)" by simp_all
  obtain h1 w where c1: "clone h (W_param self) = (h1, w)" by (cases "clone h (W_param self)")
  obtain h2 b where c2: "clone h1 (b_param self) = (h2, b)" by (cases "clone h1 (b_param self)")
  note f1 = clone_fresh[OF c1] and f2 = clone_fresh[OF c2]
  have gw: "get_weights h self = (h2, w, b)"
    by (simp add: get_weights_def c1 c2 detach_def)
  have vW: "flat (deref h2 w) = flat (deref h (W_param self))"
    by (simp only: f2(3)[OF f1(1)] clone_value[OF c1])
  have vb: "flat (deref h2 b) = flat (deref h (b_param self))"
    by (simp only: clone_value[OF c2] f1(3)[OF ab])
  have dW2: "deref h2 (W_param self) = deref h (W_param self)"
    using f2(3)[OF f1(5)[OF aW]] f1(3)[OF aW] by simp
  have db2: "deref h2 (b_param self) = deref h (b_param self)"
    using f2(3)[OF f1(5)[OF ab]] f1(3)[OF ab] by simp
  have ne: "addr (W_param self) \<noteq> addr w" "addr (W_param self) \<noteq> addr b"
    "addr (b_param self) \<noteq> addr w" "addr (b_param self) \<noteq> addr b"
    using f1(4)[OF aW] f1(4)[OF ab] f2(4)[OF f1(5)[OF aW]] f2(4)[OF f1(5)[OF ab]] by simp_all
  have caller: "deref (h2[k := data]) (W_param self) = deref h (W_param self) \<and>
             deref (h2[k := data]) (b_param self) = deref h (b_param self)"
    if "k \<in> {addr w, addr b}" for k data
    using that ne dW2 db2 by (auto simp: deref_update_other)
  have layer: "deref (fst (update_weights h2 self dW db)) w = deref h2 w \<and>
                 deref (fst (update_weights h2 self dW db)) b = deref h2 b" for dW db
    using ne by (simp add: update_weights_deref)
  show "\<exists>h' w b. get_weights h self = (h', w, b) \<and>
        flat (deref h' w) = flat (deref h (W_param self)) \<and>
        flat (deref h' b) = flat (deref h (b_param self)) \<and>
        (\<forall>k data. k \<in> {addr w, addr b} \<longrightarrow>
             deref (h'[k := data]) (W_param self) = deref h (W_param self) \<and>
             deref (h'[k := data]) (b_param self) = deref h (b_param self)) \<and>
        (\<forall>dW db. deref (fst (update_weights h' self dW db)) w = deref h' w \<and>
                 deref (fst (update_weights h' self dW db)) b = deref h' b)"
    using gw vW vb caller layer by blast
next
  assume a: "allocated h (W_param self) \<and> allocated h (b_param self) \<and>
     allocated h Wn \<and> allocated h bn"
  then have aW: "allocated h Wn" and ab: "allocated h bn" by simp_all
  obtain h1 w where c1: "clone h Wn = (h1, w)" by (cases "clone h Wn")
  obtain h2 b where c2: "clone h1 bn = (h2, b)" by (cases "clone h1 bn")
  note f1 = clone_fresh[OF c1] and f2 = clone_fresh[OF c2]
  define self' where "self' = self\<lparr>W_param := w, b_param := b\<rparr>"
  have sw: "set_weights h self Wn bn = (h2, self')"
    by (simp add: set_weights_def c1 c2 detach_def self'_def)
  have sel: "W_param self' = w" "b_param self' = b" by (simp_all add: self'_def)
  have vW: "flat (deref h2 (W_param self')) = flat (deref h Wn)"
    by (simp only: sel f2(3)[OF f1(1)] clone_value[OF c1])
  have vb: "flat (deref h2 (b_param self')) = flat (deref h bn)"
    by (simp only: sel clone_value[OF c2] f1(3)[OF ab])
  have dW2: "deref h2 Wn = deref h Wn"
    using f2(3)[OF f1(5)[OF aW]] f1(3)[OF aW] by simp
  have db2: "deref h2 bn = deref h bn"
    using f2(3)[OF f1(5)[OF ab]] f1(3)[OF ab] by simp
  have ne: "addr Wn \<noteq> addr (W_param self')" "addr Wn \<noteq> addr (b_param self')"
    "addr bn \<noteq> addr (W_param self')" "addr bn \<noteq> addr (b_param self')"
    using f1(4)[OF aW] f1(4)[OF ab] f2(4)[OF f1(5)[OF aW]] f2(4)[OF f1(5)[OF ab]]
    by (simp_all add: self'_def)
  have caller: "deref (h2[k := data]) (W_param self') = deref h2 (W_param self') \<and>
             deref (h2[k := data]) (b_param self') = deref h2 (b_param self')"
    if "k \<in> {addr Wn, addr bn}" for k data
    using that ne by (auto simp: deref_update_other)
  have layer: "deref (fst (update_weights h2 self' dW db)) Wn = deref h Wn \<and>
                 deref (fst (update_weights h2 self' dW db)) bn = deref h bn" for dW db
    using ne dW2 db2 by (simp add: update_weights_deref)
  show "\<exists>h' self'. set_weights h self Wn bn = (h', self') \<and>
        flat (deref h' (W_param self')) = flat (deref h Wn) \<and>
        flat (deref h' (b_param self')) = flat (deref h bn) \<and>
        (\<forall>k data. k \<in> {addr Wn, addr bn} \<longrightarrow>
             deref (h'[k := data]) (W_param self') = deref h' (W_param self') \<and>
             deref (h'[k := data]) (b_param self') = deref h' (b_param self')) \<and>
        (\<forall>dW db. deref (fst (update_weights h' self' dW db)) Wn = deref h Wn \<and>
                 deref (fst (update_weights h' self' dW db)) bn = deref h bn)"
    using sw vW vb caller layer by blast
qed

theorem weights_no_aliasing_witness:
  "allocated ex_heap (W_param ex_layer) \<and> allocated ex_heap (b_param ex_layer) \<and>
   allocated ex_heap ex_Wn \<and> allocated ex_heap ex_bn \<and>
   (\<exists>h' w b. get_weights ex_heap ex_layer = (h', w, b) \<and>
        flat (deref h' w) = flat (deref ex_heap (W_param ex_layer)) \<and>
        deref (h'[addr w := [0, 0]]) (W_param ex_layer) = deref ex_heap (W_param ex_layer) \<and>
        deref (fst (update_weights h' ex_layer w b)) w = deref h' w) \<and>
   (\<exists>h' self'. set_weights ex_heap ex_layer ex_Wn ex_bn = (h', self') \<and>
        flat (deref h' (W_param self')) = flat (deref ex_heap ex_Wn) \<and>
        deref (h'[addr ex_Wn := [0, 0]]) (W_param self') = deref h' (W_param self') \<and>
        deref (fst (update_weights h' self' ex_Wn ex_bn)) ex_Wn = deref ex_heap ex_Wn)"
proof -
  have a: "allocated ex_heap (W_param ex_layer) \<and> allocated ex_heap (b_param ex_layer) \<and>
     allocated ex_heap ex_Wn \<and> allocated ex_heap ex_bn"
    by (simp add: allocated_def ex_heap_def ex_layer_def ex_Wn_def ex_bn_def)
  from weights_no_aliasing[of ex_heap ex_layer ex_Wn ex_bn] a
  have g: "\<exists>h' w b. get_weights ex_heap ex_layer = (h', w, b) \<and>
        flat (deref h' w) = flat (deref ex_heap (W_param ex_layer)) \<and>
        flat (deref h' b) = flat (deref ex_heap (b_param ex_layer)) \<and>
        (\<forall>k data. k \<in> {addr w, addr b} \<longrightarrow>
             deref (h'[k := data]) (W_param ex_layer) = deref ex_heap (W_param ex_layer) \<and>
             deref (h'[k := data]) (b_param ex_layer) = deref ex_heap (b_param ex_layer)) \<and>
        (\<forall>dW db. deref (fst (update_weights h' ex_layer dW db)) w = deref h' w \<and>
                 deref (fst (update_weights h' ex_layer dW db)) b = deref h' b)"
    and s: "\<exists>h' self'. set_weights ex_heap ex_layer ex_Wn ex_bn = (h', self') \<and>
        flat (deref h' (W_param self')) = flat (deref ex_heap ex_Wn) \<and>
        flat (deref h' (b_param self')) = flat (deref ex_heap ex_bn) \<and>
        (\<forall>k data. k \<in> {addr ex_Wn, addr ex_bn} \<longrightarrow>
             deref (h'[k := data]) (W_param self') = deref h' (W_param self') \<and>
             deref (h'[k := data]) (b_param self') = deref h' (b_param self')) \<and>
        (\<forall>dW db. deref (fst (update_weights h' self' dW db)) ex_Wn = deref ex_heap ex_Wn \<and>
                 deref (fst (update_weights h' self' dW db)) ex_bn = deref ex_heap ex_bn)"
    by blast+
  from g have g': "\<exists>h' w b. get_weights ex_heap ex_layer = (h', w, b) \<and>
        flat (deref h' w) = flat (deref ex_heap (W_param ex_layer)) \<and>
        deref (h'[addr w := [0, 0]]) (W_param ex_layer) = deref ex_heap (W_param ex_layer) \<and>
        deref (fst (update_weights h' ex_layer w b)) w = deref h' w"
    by (metis insertI1)
  from s have s': "\<exists>h' self'. set_weights ex_heap ex_layer ex_Wn ex_bn = (h', self') \<and>
        flat (deref h' (W_param self')) = flat (deref ex_heap ex_Wn) \<and>
        deref (h'[addr ex_Wn := [0, 0]]) (W_param self') = deref h' (W_param self') \<and>
        deref (fst (update_weights h' self' ex_Wn ex_bn)) ex_Wn = deref ex_heap ex_Wn"
    by (metis insertI1)
  from a g' s' show ?thesis by blast
qed

section \<open>Positional encoding\<close>

lemma ten_powr_four: "(10::real) powr (4 * a) = 10000 powr a"
proof -
  have "(10000::real) = 10 powr 4" by simp
  then show ?thesis by (simp only: powr_powr)
qed

text \<open>
  Claim C7. The entry of \<open>PosEncoding(t_len, d_model)\<close> at position \<open>pos\<close> and index \<open>i\<close> is
  \<open>sin(pos / 10000^(i/d_model))\<close> for even \<open>i\<close> and \<open>cos(pos / 10000^((i-1)/d_model))\<close> for odd
  \<open>i\<close>; the row at position 0 is 0 at every even index and 1 at every odd index.
\<close>

theorem PosEncoding_formula:
  "pos < t_len \<and> i < d_model \<longrightarrow>
     elem (PosEncoding t_len d_model) [pos, i] =
       (if even i then sin (real pos / 10000 powr (real i / real d_model))
        else cos (real pos / 10000 powr ((real i - 1) / real d_model))) \<and>
     elem (PosEncoding t_len d_model) [0, i] = (if even i then 0 else 1)"
proof
  assume a: "pos < t_len \<and> i < d_model"
  then have v: "valid_index [t_len, d_model] [pos, i]" "valid_index [t_len, d_model] [0, i]"
    by (simp_all add: valid_index_def)
  have m: "int i mod 2 = (if even i then 0 else 1)"
    by presburger
  have p1: "(10::real) powr (4 * real i / real d_model) = 10000 powr (real i / real d_model)"
    using ten_powr_four[of "real i / real d_model"] by simp
  have "4 * ((real i - 1) / real d_model) = (4 * real i - 4) / real d_model"
    by (simp add: right_diff_distrib)
  then have p2: "(10::real) powr ((4 * real i - 4) / real d_model)
            = 10000 powr ((real i - 1) / real d_model)"
    using ten_powr_four[of "(real i - 1) / real d_model"] by simp
  show "elem (PosEncoding t_len d_model) [pos, i] =
       (if even i then sin (real pos / 10000 powr (real i / real d_model))
        else cos (real pos / 10000 powr ((real i - 1) / real d_model))) \<and>
     elem (PosEncoding t_len d_model) [0, i] = (if even i then 0 else 1)"
    unfolding PosEncoding_def
    by (simp add: elem_tabulate[OF v(1)] elem_tabulate[OF v(2)] Let_def m p1 p2)
qed

theorem PosEncoding_formula_witness:
  "(0::nat) < 1 \<and> (1::nat) < 2 \<and> elem (PosEncoding 1 2) [0, 1] = 1 \<and>
   (0::nat) < 2 \<and> elem (PosEncoding 1 2) [0, 0] = 0"
  using PosEncoding_formula[of 0 1 1 2] PosEncoding_formula[of 0 1 0 2] by simp

end
